theory Spec2Isabelle
  imports Main
begin

text \<open>
  A model of \<open>src/main.ts\<close> of vscode-nls-dev: the XLIFF document (\<open>XLF\<close>), the
  classification of source files into resources (\<open>getResource\<close>), the import of bundle,
  module and package JSON files into XLIFF documents, the parse of translated XLIFF, the
  lines of the installer message files, and the entity encoding they share.
\<close>

section \<open>Strings of the source language\<close>

text \<open>
  A JavaScript string is modelled as a \<open>string\<close>, a list of characters; the source
  tells apart only characters of the ASCII range. \<open>undefined\<close> is modelled by \<open>None\<close>
  wherever the source can meet it.
\<close>

definition startsWith :: "string \<Rightarrow> string \<Rightarrow> bool" where
  "startsWith s p = (take (length p) s = p)"

text \<open>\<open>xs.join(sep)\<close>.\<close>

fun join :: "string \<Rightarrow> string list \<Rightarrow> string" where
  "join sep [] = []"
| "join sep [x] = x"
| "join sep (x # y # ys) = x @ sep @ join sep (y # ys)"

text \<open>
  \<open>s.split(c)\<close> for a one-character separator: the pieces between the separators,
  at least one piece.
\<close>

fun split_acc :: "char \<Rightarrow> string \<Rightarrow> string \<Rightarrow> string list" where
  "split_acc c acc [] = [rev acc]"
| "split_acc c acc (x # xs) =
     (if x = c then rev acc # split_acc c [] xs else split_acc c (x # acc) xs)"

definition split :: "char \<Rightarrow> string \<Rightarrow> string list" where
  "split c s = split_acc c [] s"

text \<open>\<open>s.split(c, limit)\<close> keeps the first \<open>limit\<close> pieces.\<close>

definition split_limit :: "char \<Rightarrow> nat \<Rightarrow> string \<Rightarrow> string list" where
  "split_limit c n s = take n (split c s)"

text \<open>
  \<open>s.replace(/pat/g, rep)\<close> for a literal pattern: the matches are found from left to
  right and do not overlap.
\<close>

function replace_all :: "string \<Rightarrow> string \<Rightarrow> string \<Rightarrow> string" where
  "replace_all pat rep [] = []"
| "replace_all pat rep (c # cs) =
     (if pat \<noteq> [] \<and> take (length pat) (c # cs) = pat
      then rep @ replace_all pat rep (drop (length pat) (c # cs))
      else c # replace_all pat rep cs)"
  by pat_completeness auto
termination
  by (relation "measure (\<lambda>(pat, rep, s). length s)") auto

section \<open>Entity encoding\<close>

text \<open>
  \<open>encodeEntities\<close> walks the characters of its argument; \<open><\<close>, \<open>>\<close> and \<open>&\<close> have a
  case of their own, every other character is pushed as it is.
\<close>

definition encodeChar :: "char \<Rightarrow> string" where
  "encodeChar ch =
     (if ch = CHR ''<'' then ''&lt;''
      else if ch = CHR ''>'' then ''&gt;''
      else if ch = CHR ''&'' then ''&amp;''
      else [ch])"

definition encodeEntities :: "string \<Rightarrow> string" where
  "encodeEntities v = concat (map encodeChar v)"

definition decodeEntities :: "string \<Rightarrow> string" where
  "decodeEntities v =
     replace_all ''&amp;'' ''&'' (replace_all ''&gt;'' ''>'' (replace_all ''&lt;'' ''<'' v))"

section \<open>The XLIFF document\<close>

text \<open>
  Errors are values. \<open>TypeError\<close> is what the runtime throws when a property of
  \<open>undefined\<close> is read; \<open>Error\<close> carries the message of a \<open>throw new Error\<close>.
\<close>

datatype error = TypeError | Error string

text \<open>\<open>xs[i]\<close>, which is \<open>undefined\<close> out of range.\<close>

definition nth_opt :: "'a list \<Rightarrow> nat \<Rightarrow> 'a option" where
  "nth_opt xs i = (if i < length xs then Some (xs ! i) else None)"

text \<open>\<open>xs.indexOf(x)\<close>: the first position of \<open>x\<close>, \<open>None\<close> for \<open>-1\<close>.\<close>

fun indexOf :: "'a list \<Rightarrow> 'a \<Rightarrow> nat option" where
  "indexOf [] x = None"
| "indexOf (y # ys) x = (if y = x then Some 0 else map_option Suc (indexOf ys x))"

record Item =
  item_id :: string
  item_message :: string
  item_comment :: "string option"

text \<open>
  A key is a plain string or a \<open>LocalizeInfo\<close> object \<open>{key, comment}\<close> whose comment
  may be absent.
\<close>

datatype key = KeyString string | LocalizeInfo string "string list option"

text \<open>
  The class \<open>XLF\<close>: \<open>buffer\<close> is set to the empty array by the constructor only;
  \<open>files\<close> is an object without prototype, kept here as the list of its properties in
  the order of their creation.
\<close>

record XLF =
  project :: string
  buffer :: "string list"
  files :: "(string \<times> Item list) list"

definition new_XLF :: "string \<Rightarrow> XLF" where
  "new_XLF p = \<lparr>project = p, buffer = [], files = []\<rparr>"

text \<open>
  \<open>this.files[original] = v\<close>: an existing property keeps its place, a new one comes last.
\<close>

fun set_property :: "string \<Rightarrow> 'v \<Rightarrow> (string \<times> 'v) list \<Rightarrow> (string \<times> 'v) list" where
  "set_property k v [] = [(k, v)]"
| "set_property k v ((k', v') # kvs) =
     (if k' = k then (k, v) # kvs else (k', v') # set_property k v kvs)"

text \<open>
  \<open>for (let file in this.files)\<close> visits the properties that are array indices (the
  canonical decimal strings below \<open>2^32 - 1\<close>) first, in ascending order, then the other
  properties in the order of their creation.
\<close>

definition is_digit :: "char \<Rightarrow> bool" where
  "is_digit c = (c \<in> set ''0123456789'')"

definition decimal_value :: "string \<Rightarrow> nat" where
  "decimal_value s = foldl (\<lambda>n c. 10 * n + (of_char c - 48)) 0 s"

definition is_array_index :: "string \<Rightarrow> bool" where
  "is_array_index s =
     (s \<noteq> [] \<and> list_all is_digit s \<and> (s = ''0'' \<or> hd s \<noteq> CHR ''0'')
      \<and> decimal_value s < 4294967295)"

definition for_in :: "(string \<times> 'v) list \<Rightarrow> (string \<times> 'v) list" where
  "for_in kvs =
     sort_key (\<lambda>kv. decimal_value (fst kv)) (filter (\<lambda>kv. is_array_index (fst kv)) kvs)
     @ filter (\<lambda>kv. \<not> is_array_index (fst kv)) kvs"

definition CRLF :: string where
  "CRLF = [CHR 0x0D, CHR 0x0A]"

text \<open>
  The loop of \<open>addFile\<close> over \<open>keys\<close>: \<open>i\<close> is the position of the current key,
  \<open>existingKeys\<close> the keys pushed so far. A string key is found by \<open>indexOf\<close> when an
  equal string stands there. The objects of a \<open>keys\<close> array are distinct objects (they come
  from \<open>JSON.parse\<close>), so an object key is never found in \<open>existingKeys\<close> and
  \<open>keys.indexOf\<close> gives its own position. \<open>encodeEntities\<close> reads \<open>value.length\<close>, which
  throws when \<open>messages\<close> has no element at that position.
\<close>

fun addFile_loop ::
  "key list \<Rightarrow> string list \<Rightarrow> nat \<Rightarrow> key list \<Rightarrow> key list \<Rightarrow> Item list \<Rightarrow> error + Item list"
where
  "addFile_loop keys messages i [] existingKeys items = Inr items"
| "addFile_loop keys messages i (KeyString k # rest) existingKeys items =
     (if KeyString k \<in> set existingKeys
      then addFile_loop keys messages (Suc i) rest existingKeys items
      else
        (case Option.bind (indexOf keys (KeyString k)) (nth_opt messages) of
           None \<Rightarrow> Inl TypeError
         | Some m \<Rightarrow>
             addFile_loop keys messages (Suc i) rest (existingKeys @ [KeyString k])
               (items @ [\<lparr>item_id = k, item_message = encodeEntities m, item_comment = None\<rparr>])))"
| "addFile_loop keys messages i (LocalizeInfo k c # rest) existingKeys items =
     (case nth_opt messages i of
        None \<Rightarrow> Inl TypeError
      | Some m \<Rightarrow>
          addFile_loop keys messages (Suc i) rest (existingKeys @ [LocalizeInfo k c])
            (items @ [\<lparr>item_id = k, item_message = encodeEntities m,
               item_comment =
                 (case c of
                    None \<Rightarrow> None
                  | Some cs \<Rightarrow> if cs \<noteq> [] then Some (join CRLF (map encodeEntities cs)) else None)\<rparr>]))"

text \<open>
  \<open>addFile\<close> first sets \<open>this.files[original]\<close> to the empty array and then pushes the
  items. An exception leaves the method; the run that called it ends there.
\<close>

definition addFile :: "string \<Rightarrow> key list \<Rightarrow> string list \<Rightarrow> XLF \<Rightarrow> error + XLF" where
  "addFile original keys messages x =
     (case addFile_loop keys messages 0 keys [] [] of
        Inl e \<Rightarrow> Inl e
      | Inr items \<Rightarrow> Inr (x\<lparr>files := set_property original items (files x)\<rparr>))"

text \<open>\<open>new Line(indent).append(content).toString()\<close>.\<close>

definition Line :: "nat \<Rightarrow> string \<Rightarrow> string" where
  "Line indent content = replicate indent CHR '' '' @ content"

definition addStringItem :: "Item \<Rightarrow> string list" where
  \<open>addStringItem item =
     [Line 4 (''<trans-unit id="'' @ item_id item @ ''">''),
      Line 6 (''<source xml:lang="en">'' @ item_message item @ ''</source>'')]
     @ (case item_comment item of
          None \<Rightarrow> []
        | Some c \<Rightarrow> if c \<noteq> [] then [Line 6 (''<note>'' @ c @ ''</note>'')] else [])
     @ [Line 4 ''</trans-unit>'']\<close>

definition appendHeader :: "string list" where
  \<open>appendHeader =
     [Line 0 ''<?xml version="1.0" encoding="utf-8"?>'',
      Line 0 ''<xliff version="1.2" xmlns="urn:oasis:names:tc:xliff:document:1.2">'']\<close>

definition appendFooter :: "string list" where
  "appendFooter = [Line 0 ''</xliff>'']"

definition appendFile :: "string \<times> Item list \<Rightarrow> string list" where
  \<open>appendFile f =
     [Line 2 (''<file original="'' @ fst f @ ''" source-language="en" datatype="plaintext"><body>'')]
     @ concat (map addStringItem (snd f))
     @ [Line 2 ''</body></file>'']\<close>

text \<open>
  \<open>toString\<close> appends the lines of the document to \<open>this.buffer\<close> and returns the buffer
  joined by CRLF: it returns the text and the object with its new buffer.
\<close>

definition toString :: "XLF \<Rightarrow> string \<times> XLF" where
  "toString x =
     (let b = buffer x @ appendHeader @ concat (map appendFile (for_in (files x))) @ appendFooter
      in (join CRLF b, x\<lparr>buffer := b\<rparr>))"

section \<open>Resources\<close>

record Resource =
  name :: string
  project_of :: string

text \<open>
  \<open>getResource\<close>: the chain of \<open>startsWith\<close> tests in the order of the source; the last
  statement throws.
\<close>

definition editorProject :: string where
  "editorProject = ''vscode-editor''"

definition workbenchProject :: string where
  "workbenchProject = ''vscode-workbench''"

definition getResource :: "string \<Rightarrow> error + Resource" where
  "getResource sourceFile =
     (if startsWith sourceFile ''vs/platform''
        then Inr \<lparr>name = ''vs/platform'', project_of = editorProject\<rparr>
      else if startsWith sourceFile ''vs/editor/contrib''
        then Inr \<lparr>name = ''vs/editor/contrib'', project_of = editorProject\<rparr>
      else if startsWith sourceFile ''vs/editor''
        then Inr \<lparr>name = ''vs/editor'', project_of = editorProject\<rparr>
      else if startsWith sourceFile ''vs/base''
        then Inr \<lparr>name = ''vs/base'', project_of = editorProject\<rparr>
      else if startsWith sourceFile ''vs/code''
        then Inr \<lparr>name = ''vs/code'', project_of = workbenchProject\<rparr>
      else if startsWith sourceFile ''vs/workbench/parts''
        then Inr \<lparr>name = join ''/'' (split_limit CHR ''/'' 4 sourceFile),
                  project_of = workbenchProject\<rparr>
      else if startsWith sourceFile ''vs/workbench/services''
        then Inr \<lparr>name = join ''/'' (split_limit CHR ''/'' 4 sourceFile),
                  project_of = workbenchProject\<rparr>
      else if startsWith sourceFile ''vs/workbench''
        then Inr \<lparr>name = ''vs/workbench'', project_of = workbenchProject\<rparr>
      else Inl (Error (''Could not identify the XLF bundle for '' @ sourceFile)))"

section \<open>Importing JSON files\<close>

text \<open>
  A file put on the stream: its path is a string, or the arguments of a \<open>path.join\<close>;
  its contents are the text handed to \<open>new Buffer\<close>.
\<close>

datatype file_path = Path string | PathJoin string string

record File =
  path :: file_path
  contents :: string

text \<open>What \<open>log('Error:', ...)\<close> is given as its message.\<close>

definition mismatch_message :: "string \<Rightarrow> string" where
  "mismatch_message relative = ''There is a mismatch between keys and messages in '' @ relative"

text \<open>
  \<open>importBundleJson\<close>. \<open>json.keys\<close> is given as the list of its properties in the order
  \<open>for ... in\<close> visits them, \<open>json.messages\<close> as the list of its properties. The state of
  the first loop is \<open>bundleXlfs\<close> and the messages logged so far; the log survives an
  exception. \<open>json.messages[source]\<close> may be \<open>undefined\<close>, whose \<open>length\<close> cannot be read.
\<close>

fun importBundleJson_sources ::
  "string \<Rightarrow> (string \<times> string list) list \<Rightarrow> (string \<times> key list) list
     \<Rightarrow> (string \<times> XLF) list \<Rightarrow> string list \<Rightarrow> string list \<times> (error + (string \<times> XLF) list)"
where
  "importBundleJson_sources relative json_messages [] bundleXlfs logged =
     (logged, Inr bundleXlfs)"
| "importBundleJson_sources relative json_messages ((source, keys) # rest) bundleXlfs logged =
     (case getResource source of
        Inl e \<Rightarrow> (logged, Inl e)
      | Inr projectResource \<Rightarrow>
          (case map_of json_messages source of
             None \<Rightarrow> (logged, Inl TypeError)
           | Some messages \<Rightarrow>
               (let logged' =
                      (if length keys \<noteq> length messages
                       then logged @ [mismatch_message relative] else logged);
                    xlf = (case map_of bundleXlfs (name projectResource) of
                             Some x \<Rightarrow> x
                           | None \<Rightarrow> new_XLF (project_of projectResource))
                in case addFile source keys messages xlf of
                     Inl e \<Rightarrow> (logged', Inl e)
                   | Inr xlf' \<Rightarrow>
                       importBundleJson_sources relative json_messages rest
                         (set_property (name projectResource) xlf' bundleXlfs) logged')))"

definition replace_slashes :: "string \<Rightarrow> string" where
  "replace_slashes s = map (\<lambda>c. if c = CHR ''/'' then CHR ''_'' else c) s"

definition bundle_file :: "string \<times> XLF \<Rightarrow> File" where
  "bundle_file rx =
     \<lparr>path = Path (project (snd rx) @ ''/'' @ replace_slashes (fst rx) @ ''.xlf''),
      contents = fst (toString (snd rx))\<rparr>"

definition importBundleJson ::
  "string \<Rightarrow> (string \<times> key list) list \<Rightarrow> (string \<times> string list) list
     \<Rightarrow> string list \<times> (error + File list)"
where
  "importBundleJson relative json_keys json_messages =
     (case importBundleJson_sources relative json_messages json_keys [] [] of
        (logged, Inl e) \<Rightarrow> (logged, Inl e)
      | (logged, Inr bundleXlfs) \<Rightarrow> (logged, Inr (map bundle_file (for_in bundleXlfs))))"

text \<open>
  The argument \<open>json\<close> of \<open>importModuleOrPackageJson\<close> has the type
  \<open>ModuleJsonFormat | PackageJsonFormat\<close>: an object with the arrays \<open>keys\<close> and
  \<open>messages\<close>, or an object whose values are strings or \<open>{message, comment}\<close> objects,
  given as the list of its properties in the order of \<open>Object.keys\<close>.
\<close>

datatype package_value = PackageString string | ValueFormat string "string list"

datatype json = ModuleJsonFormat "key list" "string list" | PackageJsonFormat "(string \<times> package_value) list"

text \<open>\<open>json[key].toString()\<close> on a value of a package file.\<close>

fun package_value_toString :: "package_value \<Rightarrow> string" where
  "package_value_toString (PackageString s) = s"
| "package_value_toString (ValueFormat m c) = ''[object Object]''"

text \<open>
  The module variable \<open>extensions\<close>: for the name of an extension, its \<open>XLF\<close> and the
  number of files processed. Nothing else is stored there.
\<close>

record extension =
  xlf :: XLF
  processed :: nat

type_synonym extensions = "string \<Rightarrow> extension option"

text \<open>
  A string that may be \<open>undefined\<close> is truthy when it is a string and not the empty
  one. The three values
  the source computes in the two branches of \<open>if (extensionName)\<close>: the name of the
  extension, the pattern handed to \<open>glob.sync\<close> and the path for the \<open>original\<close>
  attribute. \<open>substr(0, n)\<close> with a negative \<open>n\<close> is the empty string.
\<close>

definition formattedSourcePath :: "string \<Rightarrow> string" where
  "formattedSourcePath relative = map (\<lambda>c. if c = CHR 0x5C then CHR ''/'' else c) relative"

definition without_nls_json :: "string \<Rightarrow> string" where
  "without_nls_json p = take (length p - length ''.nls.json'') p"

definition truthy :: "string option \<Rightarrow> bool" where
  "truthy v = (v \<noteq> None \<and> v \<noteq> Some [])"

definition extension_name :: "string option \<Rightarrow> string \<Rightarrow> string" where
  "extension_name extensionName relative =
     (if truthy extensionName then the extensionName
      else (case split CHR ''/'' (formattedSourcePath relative) of x # _ \<Rightarrow> x | [] \<Rightarrow> []))"

definition glob_pattern :: "string option \<Rightarrow> string \<Rightarrow> string" where
  "glob_pattern extensionName relative =
     (if truthy extensionName then ''**/*.nls.json''
      else ''./extensions/'' @ extension_name extensionName relative @ ''/**/*.nls.json'')"

definition originalFilePath_of :: "string option \<Rightarrow> string \<Rightarrow> string" where
  "originalFilePath_of extensionName relative =
     (if truthy extensionName then without_nls_json (formattedSourcePath relative)
      else ''extensions/'' @ without_nls_json (formattedSourcePath relative))"

text \<open>
  \<open>importModuleOrPackageJson\<close>. The file system is the parameter \<open>glob\<close>: for a
  pattern, the number of files \<open>glob.sync\<close> finds at the time of this call. The function
  returns what it logged and, unless an exception left it, the new \<open>extensions\<close> and the
  files it put on the stream.
\<close>

definition importModuleOrPackageJson ::
  "(string \<Rightarrow> nat) \<Rightarrow> string \<Rightarrow> json \<Rightarrow> string \<Rightarrow> string option \<Rightarrow> extensions
     \<Rightarrow> string list \<times> (error + extensions \<times> File list)"
where
  "importModuleOrPackageJson glob relative js projectName extensionName exts =
     (let logged =
            (case js of
               ModuleJsonFormat keys messages \<Rightarrow>
                 if length keys \<noteq> length messages then [mismatch_message relative] else []
             | PackageJsonFormat kvs \<Rightarrow> []);
          ext = extension_name extensionName relative;
          localizationFilesCount = glob (glob_pattern extensionName relative);
          originalFilePath = originalFilePath_of extensionName relative;
          e = (case exts ext of
                 Some e \<Rightarrow> e
               | None \<Rightarrow> \<lparr>xlf = new_XLF projectName, processed = 0\<rparr>)
      in case (case js of
                 ModuleJsonFormat keys messages \<Rightarrow> addFile originalFilePath keys messages (xlf e)
               | PackageJsonFormat kvs \<Rightarrow>
                   addFile originalFilePath (map (KeyString \<circ> fst) kvs)
                     (map (package_value_toString \<circ> snd) kvs) (xlf e)) of
           Inl err \<Rightarrow> (logged, Inl err)
         | Inr x \<Rightarrow>
             if Suc (processed e) = localizationFilesCount
             then (logged,
                   Inr (exts(ext \<mapsto> \<lparr>xlf = snd (toString x), processed = Suc (processed e)\<rparr>),
                        [\<lparr>path = PathJoin projectName (ext @ ''.xlf''),
                          contents = fst (toString x)\<rparr>]))
             else (logged,
                   Inr (exts(ext \<mapsto> \<lparr>xlf = x, processed = Suc (processed e)\<rparr>), [])))"

text \<open>
  \<open>importModuleOrPackageJson\<close> called for each file of a sequence, as the stream of
  \<open>prepareXlfFiles projectName extensionName\<close> calls it for the module and package files
  that arrive, each with the file system of its arrival: the files put on the stream at
  each arrival. An exception ends the run.
\<close>

fun importModuleOrPackageJson_run ::
  "string \<Rightarrow> string option \<Rightarrow> ((string \<Rightarrow> nat) \<times> string \<times> json) list \<Rightarrow> extensions
     \<Rightarrow> error + extensions \<times> File list list"
where
  "importModuleOrPackageJson_run projectName extensionName [] exts = Inr (exts, [])"
| "importModuleOrPackageJson_run projectName extensionName ((glob, relative, js) # rest) exts =
     (case snd (importModuleOrPackageJson glob relative js projectName extensionName exts) of
        Inl err \<Rightarrow> Inl err
      | Inr (exts', emitted) \<Rightarrow>
          (case importModuleOrPackageJson_run projectName extensionName rest exts' of
             Inl err \<Rightarrow> Inl err
           | Inr (exts'', later) \<Rightarrow> Inr (exts'', emitted # later)))"

section \<open>Parsing XLIFF\<close>

text \<open>
  \<open>XLF.parse\<close> hands the text to the parser of \<open>xml2js\<close> and works on what that parser
  gives its callback: an error, or the object \<open>result\<close>. Of that object the callback
  reads \<open>result['xliff']['file']\<close>, of a file node \<open>$\<close> (its attributes, absent when
  the element has none) and \<open>body[0]['trans-unit']\<close>, of a unit \<open>$\<close> and \<open>target\<close>.
  The children of an element are an array per tag name; a child is a string when the
  element holds text only and an object otherwise.
\<close>

datatype xml_child = Text string | Element

record trans_unit =
  unit_attributes :: "(string \<times> string) list option"
  unit_target :: "xml_child list option"

record file_node =
  file_attributes :: "(string \<times> string) list option"
  file_body :: "trans_unit list option list option"

record xliff_node =
  xliff_file :: "file_node list option"

text \<open>
  The arguments of the callback: an error (as the text it is printed with); no object at
  all; or the object, whose \<open>xliff\<close> property may be absent.
\<close>

datatype parser_result = ParserError string | NoResult | Result "xliff_node option"

datatype reason = Reason string | Thrown error

record parsed_file =
  messages :: "(string \<times> string) list"
  originalFilePath :: string
  language :: string

datatype promise = Resolved "parsed_file list" | Rejected reason

text \<open>\<open>xs.toString()\<close> of an array: its elements as strings, joined by commas.\<close>

fun xml_child_toString :: "xml_child \<Rightarrow> string" where
  "xml_child_toString (Text s) = s"
| "xml_child_toString Element = ''[object Object]''"

definition array_toString :: "xml_child list \<Rightarrow> string" where
  "array_toString xs = join '','' (map xml_child_toString xs)"

text \<open>\<open>toLowerCase\<close> on the letters A to Z; other characters are left as they are.\<close>

definition lower_char :: "char \<Rightarrow> char" where
  "lower_char c =
     (case map_of (zip ''ABCDEFGHIJKLMNOPQRSTUVWXYZ'' ''abcdefghijklmnopqrstuvwxyz'') c of
        Some l \<Rightarrow> l
      | None \<Rightarrow> c)"

definition toLowerCase :: "string \<Rightarrow> string" where
  "toLowerCase s = map lower_char s"

text \<open>
  \<open>messages[key] = v\<close> on an object made by \<open>{}\<close>: assigning a string to
  \<open>__proto__\<close> creates no property.
\<close>

definition assign :: "string \<Rightarrow> string \<Rightarrow> (string \<times> string) list \<Rightarrow> (string \<times> string) list" where
  "assign k v m = (if k = ''__proto__'' then m else set_property k v m)"

text \<open>
  A promise is settled once: the first \<open>reject\<close> fixes its outcome, and neither the
  statements the callback runs after it nor an exception they throw can change it. An
  exception thrown before any \<open>reject\<close> leaves the callback; the parser hands it on
  to the executor of the promise, or back to the callback as an error, and either way
  the promise is rejected. So each \<open>reject\<close> and each exception ends the model with a
  rejected outcome; for an exception the reason is modelled as the exception itself.
\<close>

definition no_localization_data :: string where
  "no_localization_data =
     ''XLIFF file does not contain full localization data. ID or target translation for one of the trans-unit nodes is not present.''"

definition no_original :: string where
  "no_original =
     ''XLIFF file node does not contain original attribute to determine the original location of the resource file.''"

definition no_target_language :: string where
  "no_target_language =
     ''XLIFF file node does not contain target-language attribute to determine translated language.''"

definition no_file_nodes :: string where
  \<open>no_file_nodes =
     ''XLIFF file does not contain "xliff" or "file" node(s) required for parsing.''\<close>

definition parse_unit :: "(string \<times> string) list \<Rightarrow> trans_unit \<Rightarrow> reason + (string \<times> string) list" where
  "parse_unit msgs unit =
     (case unit_attributes unit of
        None \<Rightarrow> Inl (Thrown TypeError)
      | Some attrs \<Rightarrow>
          (case unit_target unit of
             None \<Rightarrow> Inr msgs
           | Some target \<Rightarrow>
               (let key = map_of attrs ''id''; val = array_toString target
                in if truthy key \<and> val \<noteq> [] then Inr (assign (the key) (decodeEntities val) msgs)
                   else Inl (Reason no_localization_data))))"

fun parse_units :: "(string \<times> string) list \<Rightarrow> trans_unit list \<Rightarrow> reason + (string \<times> string) list" where
  "parse_units msgs [] = Inr msgs"
| "parse_units msgs (unit # units) =
     (case parse_unit msgs unit of
        Inl r \<Rightarrow> Inl r
      | Inr msgs' \<Rightarrow> parse_units msgs' units)"

definition parse_file :: "file_node \<Rightarrow> reason + parsed_file" where
  "parse_file file =
     (case file_attributes file of
        None \<Rightarrow> Inl (Thrown TypeError)
      | Some attrs \<Rightarrow>
          if \<not> truthy (map_of attrs ''original'') then Inl (Reason no_original)
          else
            (case map_of attrs ''target-language'' of
               None \<Rightarrow> Inl (Thrown TypeError)
             | Some l \<Rightarrow>
                 if toLowerCase l = [] then Inl (Reason no_target_language)
                 else
                   (case file_body file of
                      None \<Rightarrow> Inl (Thrown TypeError)
                    | Some [] \<Rightarrow> Inl (Thrown TypeError)
                    | Some (None # bodies) \<Rightarrow> Inl (Thrown TypeError)
                    | Some (Some transUnits # bodies) \<Rightarrow>
                        (case parse_units [] transUnits of
                           Inl r \<Rightarrow> Inl r
                         | Inr msgs \<Rightarrow>
                             Inr \<lparr>messages = msgs,
                                  originalFilePath = the (map_of attrs ''original''),
                                  language = toLowerCase l\<rparr>))))"

fun parse_files :: "file_node list \<Rightarrow> reason + parsed_file list" where
  "parse_files [] = Inr []"
| "parse_files (file # fileNodes) =
     (case parse_file file of
        Inl r \<Rightarrow> Inl r
      | Inr f \<Rightarrow>
          (case parse_files fileNodes of
             Inl r \<Rightarrow> Inl r
           | Inr fs \<Rightarrow> Inr (f # fs)))"

definition XLF_parse :: "parser_result \<Rightarrow> promise" where
  "XLF_parse r =
     (case r of
        ParserError err \<Rightarrow> Rejected (Reason (''Failed to parse XLIFF string. '' @ err))
      | NoResult \<Rightarrow> Rejected (Thrown TypeError)
      | Result None \<Rightarrow> Rejected (Thrown TypeError)
      | Result (Some xliff) \<Rightarrow>
          (case xliff_file xliff of
             None \<Rightarrow> Rejected (Reason no_file_nodes)
           | Some fileNodes \<Rightarrow>
               (case parse_files fileNodes of
                  Inl r \<Rightarrow> Rejected r
                | Inr parsed \<Rightarrow> Resolved parsed)))"

section \<open>Installer message files\<close>

definition languageNames :: "(string \<times> string) list" where
  "languageNames =
     [(''chs'', ''Simplified Chinese''), (''cht'', ''Traditional Chinese''), (''kor'', ''Korean'')]"

definition languageIds :: "(string \<times> string) list" where
  "languageIds = [(''chs'', ''$0804''), (''cht'', ''$0404''), (''kor'', ''$0412'')]"

definition encodings :: "(string \<times> string) list" where
  "encodings =
     [(''chs'', ''CP936''), (''cht'', ''CP950''), (''jpn'', ''CP932''), (''kor'', ''CP949''),
      (''deu'', ''CP1252''), (''fra'', ''CP1252''), (''esn'', ''CP1252''), (''rus'', ''CP1251''),
      (''ita'', ''CP1252'')]"

text \<open>
  \<open>obj[key]\<close> on an object made by \<open>{}\<close> or by an object literal (\<open>messages\<close> is
  made by \<open>{}\<close> in \<open>XLF.parse\<close>; \<open>languageNames\<close>, \<open>languageIds\<close> and \<open>encodings\<close>
  are literals): an own property is found first, then the members inherited from
  \<open>Object.prototype\<close>, which are functions, but for \<open>__proto__\<close>, which is the
  prototype itself. An inherited member is given with the text it is written with in a
  template literal.
\<close>

definition Object_prototype :: "(string \<times> string) list" where
  "Object_prototype =
     [(''constructor'', ''function Object() { [native code] }''),
      (''__defineGetter__'', ''function __defineGetter__() { [native code] }''),
      (''__defineSetter__'', ''function __defineSetter__() { [native code] }''),
      (''hasOwnProperty'', ''function hasOwnProperty() { [native code] }''),
      (''__lookupGetter__'', ''function __lookupGetter__() { [native code] }''),
      (''__lookupSetter__'', ''function __lookupSetter__() { [native code] }''),
      (''isPrototypeOf'', ''function isPrototypeOf() { [native code] }''),
      (''propertyIsEnumerable'', ''function propertyIsEnumerable() { [native code] }''),
      (''toString'', ''function toString() { [native code] }''),
      (''valueOf'', ''function valueOf() { [native code] }''),
      (''__proto__'', ''[object Object]''),
      (''toLocaleString'', ''function toLocaleString() { [native code] }'')]"

datatype property = Own string | Inherited string

definition get_property :: "(string \<times> string) list \<Rightarrow> string \<Rightarrow> property option" where
  "get_property obj key =
     (case map_of obj key of
        Some v \<Rightarrow> Some (Own v)
      | None \<Rightarrow> map_option Inherited (map_of Object_prototype key))"

text \<open>A value put into a template literal: \<open>undefined\<close> is written as that word.\<close>

definition interpolate :: "property option \<Rightarrow> string" where
  "interpolate v =
     (case v of None \<Rightarrow> ''undefined'' | Some (Own s) \<Rightarrow> s | Some (Inherited t) \<Rightarrow> t)"

definition english_banner :: string where
  "english_banner = ''; *** Inno Setup version 5.5.3+ English messages ***''"

text \<open>
  The body of the loop of \<open>createIslFile\<close> over the lines of the template: what one line
  pushes to \<open>content\<close>. \<open>messages\<close> is given as the list of its own properties. Only a
  string has \<open>substr\<close>; a translated message counts when it is not the empty string,
  and an inherited member always does.
\<close>

definition createIslFile_line :: "(string \<times> string) list \<Rightarrow> string \<Rightarrow> string \<Rightarrow> error + string list" where
  "createIslFile_line msgs lang line =
     (if line = [] then Inr []
      else if hd line = CHR ''['' \<or> hd line = CHR '';'' then
        (if line = english_banner
         then Inr [''; *** Inno Setup version 5.5.3+ ''
                     @ interpolate (get_property languageNames lang) @ '' messages ***'']
         else Inr [line])
      else
        (let key = (case split CHR ''='' line of k # _ \<Rightarrow> k | [] \<Rightarrow> [])
         in if key \<noteq> [] then
              (if key = ''LanguageName''
                 then Inr [key @ ''='' @ interpolate (get_property languageNames lang)]
               else if key = ''LanguageID''
                 then Inr [key @ ''='' @ interpolate (get_property languageIds lang)]
               else if key = ''LanguageCodePage''
                 then (case get_property encodings lang of
                         Some (Own enc) \<Rightarrow> Inr [key @ ''='' @ drop 2 enc]
                       | _ \<Rightarrow> Inl TypeError)
               else (case get_property msgs key of
                       None \<Rightarrow> Inr [line]
                     | Some (Own translatedMessage) \<Rightarrow>
                         if translatedMessage \<noteq> [] then Inr [key @ ''='' @ translatedMessage]
                         else Inr [line]
                     | Some (Inherited text) \<Rightarrow> Inr [key @ ''='' @ text]))
            else Inr [line]))"

fun createIslFile_content :: "(string \<times> string) list \<Rightarrow> string \<Rightarrow> string list \<Rightarrow> error + string list" where
  "createIslFile_content msgs lang [] = Inr []"
| "createIslFile_content msgs lang (line # lines) =
     (case createIslFile_line msgs lang line of
        Inl e \<Rightarrow> Inl e
      | Inr pushed \<Rightarrow>
          (case createIslFile_content msgs lang lines of
             Inl e \<Rightarrow> Inl e
           | Inr content \<Rightarrow> Inr (pushed @ content)))"

section \<open>The XML parser\<close>

text \<open>
  \<open>parser.parseString(xlfString, callback)\<close> is the parser of \<open>xml2js\<close> with its default
  options, which reads the text with the character scanner of \<open>sax\<close> in strict mode and
  builds one object per element. The model follows the scanner state by state, for
  documents made of elements with quoted attributes, character data, the five named
  entities and processing instructions. It gives \<open>None\<close>, and so says nothing, on
  every other text: where the scanner reports an error, and on comments, CDATA sections,
  document type declarations, character references, characters outside the ASCII range
  in names, and names that collide with a member every object has.
\<close>

text \<open>
  The value built for an element: a string when the element has neither attributes nor
  child elements (its text, which may be white space only), and otherwise an object with
  \<open>$\<close> (the attributes, when there are any), \<open>_\<close> (the text, unless it is white
  space only) and one array per name of child element.
\<close>

datatype xml_value =
    XString string
  | XObject "(string \<times> string) list option" "string option" "(string \<times> xml_value list) list"

text \<open>An open element: its name, its attributes, its text and its children so far.\<close>

datatype frame = Frame string "(string \<times> string) list" string "(string \<times> xml_value list) list"

text \<open>
  The states of the scanner. The states inside a start tag carry the name of the tag and
  the attributes read so far, those inside an attribute its name, those inside a value the
  quote and the value so far, those inside an entity the name so far.
\<close>

datatype mode =
    TEXT
  | TEXT_ENTITY string
  | OPEN_WAKA
  | PROC_INST
  | PROC_INST_ENDING
  | OPEN_TAG string
  | OPEN_TAG_SLASH string "(string \<times> string) list"
  | ATTRIB string "(string \<times> string) list"
  | ATTRIB_NAME string "(string \<times> string) list" string
  | ATTRIB_NAME_SAW_WHITE string "(string \<times> string) list" string
  | ATTRIB_VALUE string "(string \<times> string) list" string
  | ATTRIB_VALUE_QUOTED string "(string \<times> string) list" string char string
  | ATTRIB_VALUE_ENTITY_Q string "(string \<times> string) list" string char string string
  | ATTRIB_VALUE_CLOSED string "(string \<times> string) list"
  | CLOSE_TAG string
  | CLOSE_TAG_SAW_WHITE string

text \<open>
  The whole state: the state of the scanner, the open elements (the innermost first) and
  the root element once it is closed.
\<close>

type_synonym sax = "mode \<times> frame list \<times> (string \<times> xml_value) option"

definition isWhitespace :: "char \<Rightarrow> bool" where
  "isWhitespace c = (c = CHR '' '' \<or> c = CHR 0x0A \<or> c = CHR 0x0D \<or> c = CHR 0x09)"

definition nameStart :: "char \<Rightarrow> bool" where
  "nameStart c = (c \<in> set '':_abcdefghijklmnopqrstuvwxyzABCDEFGHIJKLMNOPQRSTUVWXYZ'')"

definition nameBody :: "char \<Rightarrow> bool" where
  "nameBody c = (nameStart c \<or> c \<in> set ''-.0123456789'')"

definition XML_ENTITIES :: "(string \<times> char) list" where
  "XML_ENTITIES =
     [(''amp'', CHR ''&''), (''gt'', CHR ''>''), (''lt'', CHR ''<''), (''quot'', CHR 0x22),
      (''apos'', CHR 0x27)]"

text \<open>The characters that \<open>\s\<close> matches, among those below 256.\<close>

definition regex_space :: "char \<Rightarrow> bool" where
  "regex_space c =
     (c = CHR '' '' \<or> c = CHR 0x09 \<or> c = CHR 0x0A \<or> c = CHR 0x0B \<or> c = CHR 0x0C
      \<or> c = CHR 0x0D \<or> c = CHR 0xA0)"

text \<open>
  Names the model leaves out: \<open>key in obj\<close> finds the text key \<open>_\<close> and the members
  of \<open>Object.prototype\<close> in every object, before any child of that name is stored.
\<close>

definition modelled :: "string \<Rightarrow> bool" where
  "modelled tag = (tag \<noteq> ''_'' \<and> map_of Object_prototype tag = None)"

text \<open>
  When an element is closed, text that is white space only is deleted; an object left
  with the text only becomes that text, and an object left empty becomes the white space
  deleted.
\<close>

definition element_value ::
  "(string \<times> string) list \<Rightarrow> string \<Rightarrow> (string \<times> xml_value list) list \<Rightarrow> xml_value" where
  "element_value attributes chars children =
     (if attributes = [] \<and> children = [] then XString chars
      else XObject (if attributes = [] then None else Some attributes)
             (if list_all regex_space chars then None else Some chars) children)"

text \<open>\<open>assignOrPush\<close>: the first child of a name starts an array, a later one is pushed.\<close>

fun assignOrPush ::
  "string \<Rightarrow> xml_value \<Rightarrow> (string \<times> xml_value list) list \<Rightarrow> (string \<times> xml_value list) list" where
  "assignOrPush key newValue [] = [(key, [newValue])]"
| "assignOrPush key newValue ((k, vs) # obj) =
     (if k = key then (k, vs @ [newValue]) # obj else (k, vs) # assignOrPush key newValue obj)"

text \<open>An attribute is stored under its name; a second attribute of a name is left out of the model.\<close>

definition attrib ::
  "string \<Rightarrow> string \<Rightarrow> (string \<times> string) list \<Rightarrow> (string \<times> string) list option" where
  "attrib attribName attribValue attributes =
     (if map_of attributes attribName \<noteq> None \<or> \<not> modelled attribName then None
      else Some (attributes @ [(attribName, attribValue)]))"

text \<open>A start tag opens an element; a second root element is left out of the model.\<close>

definition openTag ::
  "string \<Rightarrow> (string \<times> string) list \<Rightarrow> frame list \<Rightarrow> (string \<times> xml_value) option \<Rightarrow> sax option" where
  "openTag tagName attributes stack root =
     (if root \<noteq> None \<or> \<not> modelled tagName then None
      else Some (TEXT, Frame tagName attributes [] [] # stack, None))"

text \<open>
  An end tag closes the innermost open element, whose name it must have: the value of the
  element goes to its parent, and is the result when there is no parent.
\<close>

definition closeTag :: "string \<Rightarrow> frame list \<Rightarrow> (string \<times> xml_value) option \<Rightarrow> sax option" where
  "closeTag tagName stack root =
     (case stack of
        [] \<Rightarrow> None
      | Frame tag attributes chars children # rest \<Rightarrow>
          if tag \<noteq> tagName then None
          else
            (case rest of
               [] \<Rightarrow> Some (TEXT, [], Some (tag, element_value attributes chars children))
             | Frame ptag pattributes pchars pchildren # rest' \<Rightarrow>
                 Some (TEXT,
                   Frame ptag pattributes pchars
                     (assignOrPush tag (element_value attributes chars children) pchildren) # rest',
                   root)))"

text \<open>One character.\<close>

fun step :: "mode \<Rightarrow> frame list \<Rightarrow> (string \<times> xml_value) option \<Rightarrow> char \<Rightarrow> sax option" where
  "step TEXT stack root c =
     (if c = CHR ''<'' then Some (OPEN_WAKA, stack, root)
      else
        (case stack of
           [] \<Rightarrow> if isWhitespace c then Some (TEXT, [], root) else None
         | Frame tag attributes chars children # rest \<Rightarrow>
             if c = CHR ''&'' then Some (TEXT_ENTITY [], stack, root)
             else Some (TEXT, Frame tag attributes (chars @ [c]) children # rest, root)))"
| "step (TEXT_ENTITY entity) stack root c =
     (if c = CHR '';'' then
        (case map_of XML_ENTITIES entity of
           None \<Rightarrow> None
         | Some x \<Rightarrow>
             (case stack of
                [] \<Rightarrow> None
              | Frame tag attributes chars children # rest \<Rightarrow>
                  Some (TEXT, Frame tag attributes (chars @ [x]) children # rest, root)))
      else Some (TEXT_ENTITY (entity @ [c]), stack, root))"
| "step OPEN_WAKA stack root c =
     (if c = CHR ''?'' then Some (PROC_INST, stack, root)
      else if c = CHR ''/'' then Some (CLOSE_TAG [], stack, root)
      else if nameStart c then Some (OPEN_TAG [c], stack, root)
      else None)"
| "step PROC_INST stack root c =
     (if c = CHR ''?'' then Some (PROC_INST_ENDING, stack, root) else Some (PROC_INST, stack, root))"
| "step PROC_INST_ENDING stack root c =
     (if c = CHR ''>'' then Some (TEXT, stack, root) else Some (PROC_INST, stack, root))"
| "step (OPEN_TAG tagName) stack root c =
     (if nameBody c then Some (OPEN_TAG (tagName @ [c]), stack, root)
      else if c = CHR ''>'' then openTag tagName [] stack root
      else if c = CHR ''/'' then Some (OPEN_TAG_SLASH tagName [], stack, root)
      else if isWhitespace c then Some (ATTRIB tagName [], stack, root)
      else None)"
| "step (OPEN_TAG_SLASH tagName attributes) stack root c =
     (if c = CHR ''>'' then
        (case openTag tagName attributes stack root of
           None \<Rightarrow> None
         | Some (m, stack', root') \<Rightarrow> closeTag tagName stack' root')
      else None)"
| "step (ATTRIB tagName attributes) stack root c =
     (if isWhitespace c then Some (ATTRIB tagName attributes, stack, root)
      else if c = CHR ''>'' then openTag tagName attributes stack root
      else if c = CHR ''/'' then Some (OPEN_TAG_SLASH tagName attributes, stack, root)
      else if nameStart c then Some (ATTRIB_NAME tagName attributes [c], stack, root)
      else None)"
| "step (ATTRIB_NAME tagName attributes attribName) stack root c =
     (if c = CHR ''='' then Some (ATTRIB_VALUE tagName attributes attribName, stack, root)
      else if isWhitespace c then Some (ATTRIB_NAME_SAW_WHITE tagName attributes attribName, stack, root)
      else if nameBody c then Some (ATTRIB_NAME tagName attributes (attribName @ [c]), stack, root)
      else None)"
| "step (ATTRIB_NAME_SAW_WHITE tagName attributes attribName) stack root c =
     (if c = CHR ''='' then Some (ATTRIB_VALUE tagName attributes attribName, stack, root)
      else if isWhitespace c then Some (ATTRIB_NAME_SAW_WHITE tagName attributes attribName, stack, root)
      else None)"
| "step (ATTRIB_VALUE tagName attributes attribName) stack root c =
     (if isWhitespace c then Some (ATTRIB_VALUE tagName attributes attribName, stack, root)
      else if c = CHR 0x22 \<or> c = CHR 0x27
        then Some (ATTRIB_VALUE_QUOTED tagName attributes attribName c [], stack, root)
      else None)"
| "step (ATTRIB_VALUE_QUOTED tagName attributes attribName q attribValue) stack root c =
     (if c = q then
        (case attrib attribName attribValue attributes of
           None \<Rightarrow> None
         | Some attributes' \<Rightarrow> Some (ATTRIB_VALUE_CLOSED tagName attributes', stack, root))
      else if c = CHR ''&''
        then Some (ATTRIB_VALUE_ENTITY_Q tagName attributes attribName q attribValue [], stack, root)
      else if c = CHR ''<'' then None
      else Some (ATTRIB_VALUE_QUOTED tagName attributes attribName q (attribValue @ [c]), stack, root))"
| "step (ATTRIB_VALUE_ENTITY_Q tagName attributes attribName q attribValue entity) stack root c =
     (if c = CHR '';'' then
        (case map_of XML_ENTITIES entity of
           None \<Rightarrow> None
         | Some x \<Rightarrow>
             Some (ATTRIB_VALUE_QUOTED tagName attributes attribName q (attribValue @ [x]), stack, root))
      else Some (ATTRIB_VALUE_ENTITY_Q tagName attributes attribName q attribValue (entity @ [c]),
             stack, root))"
| "step (ATTRIB_VALUE_CLOSED tagName attributes) stack root c =
     (if isWhitespace c then Some (ATTRIB tagName attributes, stack, root)
      else if c = CHR ''>'' then openTag tagName attributes stack root
      else if c = CHR ''/'' then Some (OPEN_TAG_SLASH tagName attributes, stack, root)
      else None)"
| "step (CLOSE_TAG tagName) stack root c =
     (if tagName = [] then (if nameStart c then Some (CLOSE_TAG [c], stack, root) else None)
      else if c = CHR ''>'' then closeTag tagName stack root
      else if nameBody c then Some (CLOSE_TAG (tagName @ [c]), stack, root)
      else if isWhitespace c then Some (CLOSE_TAG_SAW_WHITE tagName, stack, root)
      else None)"
| "step (CLOSE_TAG_SAW_WHITE tagName) stack root c =
     (if isWhitespace c then Some (CLOSE_TAG_SAW_WHITE tagName, stack, root)
      else if c = CHR ''>'' then closeTag tagName stack root
      else None)"

text \<open>\<open>write(str)\<close>: the characters of the text, one after the other.\<close>

fun sax_write :: "sax \<Rightarrow> string \<Rightarrow> sax option" where
  "sax_write s [] = Some s"
| "sax_write (m, stack, root) (c # cs) =
     (case step m stack root c of
        None \<Rightarrow> None
      | Some s' \<Rightarrow> sax_write s' cs)"

text \<open>
  What the callback reads of \<open>result\<close>: \<open>result['xliff']['file']\<close>, of a file node
  \<open>$\<close> and \<open>body\<close>, of a body \<open>['trans-unit']\<close>, of a unit \<open>$\<close> and \<open>target\<close>.
  A string has none of these properties.
\<close>

fun child_of :: "xml_value \<Rightarrow> xml_child" where
  "child_of (XString s) = Text s"
| "child_of (XObject attributes chars children) = Element"

fun unit_of :: "xml_value \<Rightarrow> trans_unit" where
  "unit_of (XString s) = \<lparr>unit_attributes = None, unit_target = None\<rparr>"
| "unit_of (XObject attributes chars children) =
     \<lparr>unit_attributes = attributes,
      unit_target = map_option (map child_of) (map_of children ''target'')\<rparr>"

fun units_of :: "xml_value \<Rightarrow> trans_unit list option" where
  "units_of (XString s) = None"
| "units_of (XObject attributes chars children) =
     map_option (map unit_of) (map_of children ''trans-unit'')"

fun file_of :: "xml_value \<Rightarrow> file_node" where
  "file_of (XString s) = \<lparr>file_attributes = None, file_body = None\<rparr>"
| "file_of (XObject attributes chars children) =
     \<lparr>file_attributes = attributes,
      file_body = map_option (map units_of) (map_of children ''body'')\<rparr>"

fun xliff_of :: "xml_value \<Rightarrow> xliff_node" where
  "xliff_of (XString s) = \<lparr>xliff_file = None\<rparr>"
| "xliff_of (XObject attributes chars children) =
     \<lparr>xliff_file = map_option (map file_of) (map_of children ''file'')\<rparr>"

text \<open>
  \<open>parseString\<close> gives the callback the object \<open>{name: value}\<close> when the root
  element is closed, and \<open>null\<close> when the text has no element. After the root element
  the model covers white space and processing instructions only.
\<close>

definition parseString :: "string \<Rightarrow> parser_result option" where
  "parseString str =
     (case sax_write (TEXT, [], None) str of
        None \<Rightarrow> None
      | Some (m, stack, root) \<Rightarrow>
          if m \<noteq> TEXT \<or> stack \<noteq> [] then None
          else
            (case root of
               None \<Rightarrow> Some NoResult
             | Some (tag, v) \<Rightarrow>
                 Some (Result (if tag = ''xliff'' then Some (xliff_of v) else None))))"

text \<open>\<open>XLF.parse(xlfString)\<close>: the parser, then the callback.\<close>

definition XLF_parse_string :: "string \<Rightarrow> promise option" where
  "XLF_parse_string xlfString = map_option XLF_parse (parseString xlfString)"

section \<open>Notions used in the statements\<close>

text \<open>
  The encodings that are left after \<open>decodeEntities\<close> has undone \<open>&lt;\<close>, and after it
  has undone \<open>&gt;\<close> as well.
\<close>

definition encodeGtAmp :: "char \<Rightarrow> string" where
  "encodeGtAmp ch =
     (if ch = CHR ''>'' then ''&gt;''
      else if ch = CHR ''&'' then ''&amp;''
      else [ch])"

definition encodeAmp :: "char \<Rightarrow> string" where
  "encodeAmp ch = (if ch = CHR ''&'' then ''&amp;'' else [ch])"

text \<open>
  The id and the comment \<open>addFile\<close> stores for a key, and the item it stores for the key
  at a position: its message is the one at that position. A position is kept when its
  key is an object, or a string that no earlier position holds.
\<close>

definition key_id :: "key \<Rightarrow> string" where
  "key_id key = (case key of KeyString k \<Rightarrow> k | LocalizeInfo k c \<Rightarrow> k)"

definition key_comment :: "key \<Rightarrow> string option" where
  "key_comment key =
     (case key of
        KeyString k \<Rightarrow> None
      | LocalizeInfo k c \<Rightarrow>
          (case c of
             None \<Rightarrow> None
           | Some cs \<Rightarrow> if cs \<noteq> [] then Some (join CRLF (map encodeEntities cs)) else None))"

definition item_at :: "key list \<Rightarrow> string list \<Rightarrow> nat \<Rightarrow> Item" where
  "item_at keys msgs i =
     \<lparr>item_id = key_id (keys ! i), item_message = encodeEntities (msgs ! i),
      item_comment = key_comment (keys ! i)\<rparr>"

definition kept :: "key list \<Rightarrow> nat \<Rightarrow> bool" where
  "kept keys i =
     (case keys ! i of
        KeyString k \<Rightarrow> KeyString k \<notin> set (take i keys)
      | LocalizeInfo k c \<Rightarrow> True)"


text \<open>
  The key of a data line of an installer message file: not empty, without \<open>=\<close>, and not
  starting a section header or a comment. The three keys of the locale metadata.
\<close>

definition data_key :: "string \<Rightarrow> bool" where
  "data_key k =
     (k \<noteq> [] \<and> CHR ''='' \<notin> set k \<and> hd k \<noteq> CHR ''['' \<and> hd k \<noteq> CHR '';'')"

definition metadata_keys :: "string list" where
  "metadata_keys = [''LanguageName'', ''LanguageID'', ''LanguageCodePage'']"

text \<open>
  A module file is complete when \<open>messages\<close> is at least as long as \<open>keys\<close>; a package
  file always is. The number of files processed for an extension, zero before its first
  file. An arrival (the file system, the relative path, the JSON) belongs to the
  extension whose name the source derives for it. The path of the XLIFF file of an
  extension. How many files each arrival of a run put on the stream.
\<close>

definition complete :: "json \<Rightarrow> bool" where
  "complete js =
     (case js of
        ModuleJsonFormat ks ms \<Rightarrow> length ks \<le> length ms
      | PackageJsonFormat kvs \<Rightarrow> True)"

definition processed_of :: "extensions \<Rightarrow> string \<Rightarrow> nat" where
  "processed_of exts e = (case exts e of None \<Rightarrow> 0 | Some en \<Rightarrow> processed en)"



definition xlf_path :: "string \<Rightarrow> string \<Rightarrow> file_path" where
  "xlf_path projectName e = PathJoin projectName (e @ ''.xlf'')"

definition emissions :: "error + extensions \<times> File list list \<Rightarrow> nat list" where
  "emissions r = (case r of Inl err \<Rightarrow> [] | Inr (exts, evs) \<Rightarrow> map length evs)"




text \<open>
  A file node is well shaped when it has attributes and its first \<open>body\<close> has a
  \<open>trans-unit\<close> array whose units all have attributes: on such nodes the callback reads
  no property of \<open>undefined\<close> but \<open>toLowerCase\<close> of an absent language.
\<close>

definition body_units :: "file_node \<Rightarrow> trans_unit list" where
  "body_units file = (case file_body file of Some (Some units # bodies) \<Rightarrow> units | _ \<Rightarrow> [])"

definition well_shaped :: "file_node \<Rightarrow> bool" where
  "well_shaped file =
     (file_attributes file \<noteq> None
      \<and> (case file_body file of
            Some (Some units # bodies) \<Rightarrow> list_all (\<lambda>u. unit_attributes u \<noteq> None) units
          | _ \<Rightarrow> False))"

text \<open>
  A unit fails when it has a target and its id is absent or empty or the target gives
  the empty string; a file node fails when its \<open>original\<close> or its \<open>target-language\<close> is
  absent or empty, or one of its units fails.
\<close>

definition attribute :: "(string \<times> string) list option \<Rightarrow> string \<Rightarrow> string option" where
  "attribute attrs a = (case attrs of None \<Rightarrow> None | Some kvs \<Rightarrow> map_of kvs a)"

definition unit_fails :: "trans_unit \<Rightarrow> bool" where
  "unit_fails u =
     (case unit_target u of
        None \<Rightarrow> False
      | Some target \<Rightarrow>
          \<not> truthy (attribute (unit_attributes u) ''id'') \<or> array_toString target = [])"

definition file_fails :: "file_node \<Rightarrow> bool" where
  "file_fails file =
     (\<not> truthy (attribute (file_attributes file) ''original'')
      \<or> \<not> truthy (attribute (file_attributes file) ''target-language'')
      \<or> list_ex unit_fails (body_units file))"

text \<open>The file node without the units that have no target.\<close>

definition drop_untargeted :: "file_node \<Rightarrow> file_node" where
  "drop_untargeted file =
     file\<lparr>file_body :=
       (case file_body file of
          Some (Some units # bodies) \<Rightarrow>
            Some (Some (filter (\<lambda>u. unit_target u \<noteq> None) units) # bodies)
        | b \<Rightarrow> b)\<rparr>"

text \<open>
  The conditions under which the spec has the parse rejected, in its words: the text
  cannot be parsed; the root has no \<open>xliff.file\<close> nodes; a file node lacks \<open>original\<close>;
  a file node lacks \<open>target-language\<close>; a unit has an id but a target that gives no
  string. An empty attribute is counted as lacking.
\<close>

definition spec_unit_rejected :: "trans_unit \<Rightarrow> bool" where
  "spec_unit_rejected u =
     (truthy (attribute (unit_attributes u) ''id'')
      \<and> (case unit_target u of None \<Rightarrow> False | Some target \<Rightarrow> array_toString target = []))"

definition spec_rejected :: "parser_result \<Rightarrow> bool" where
  "spec_rejected r =
     (case r of
        ParserError err \<Rightarrow> True
      | NoResult \<Rightarrow> True
      | Result None \<Rightarrow> True
      | Result (Some xliff) \<Rightarrow>
          (case xliff_file xliff of
             None \<Rightarrow> True
           | Some fileNodes \<Rightarrow>
               list_ex (\<lambda>file.
                 \<not> truthy (attribute (file_attributes file) ''original'')
                 \<or> \<not> truthy (attribute (file_attributes file) ''target-language'')
                 \<or> list_ex spec_unit_rejected (body_units file)) fileNodes))"

text \<open>
  Documents whose text the model of the parser covers: paths and ids without a double
  quote, \<open>&\<close> and \<open><\<close> (\<open>toString\<close> writes them into attribute values as they
  are), and messages and comments as \<open>addFile\<close> stores them, entity-encoded.
\<close>

definition plain :: "string \<Rightarrow> bool" where
  "plain s = (CHR 0x22 \<notin> set s \<and> CHR ''&'' \<notin> set s \<and> CHR ''<'' \<notin> set s)"

definition stored :: "string \<Rightarrow> bool" where
  "stored s = (encodeEntities (decodeEntities s) = s)"

definition serializable_item :: "Item \<Rightarrow> bool" where
  "serializable_item item =
     (plain (item_id item) \<and> stored (item_message item)
      \<and> (case item_comment item of None \<Rightarrow> True | Some c \<Rightarrow> stored c))"

definition serializable :: "XLF \<Rightarrow> bool" where
  "serializable x =
     (buffer x = []
      \<and> list_all (\<lambda>f. plain (fst f) \<and> list_all serializable_item (snd f)) (files x))"

text \<open>
  The values the parser builds for the elements \<open>toString\<close> writes: a unit has its id,
  a \<open>source\<close> and, with a comment, a \<open>note\<close>, and no \<open>target\<close>; a file has its
  path, the source language and the data type, and no \<open>target-language\<close>.
\<close>

definition unit_children :: "Item \<Rightarrow> (string \<times> xml_value list) list" where
  "unit_children item =
     [(''source'',
        [element_value [(''xml:lang'', ''en'')] (decodeEntities (item_message item)) []])]
     @ (case item_comment item of
          None \<Rightarrow> []
        | Some c \<Rightarrow> if c \<noteq> [] then [(''note'', [XString (decodeEntities c)])] else [])"

definition unit_xml :: "Item \<Rightarrow> xml_value" where
  "unit_xml item = XObject (Some [(''id'', item_id item)]) None (unit_children item)"

definition body_xml :: "Item list \<Rightarrow> xml_value" where
  "body_xml items =
     (if items = [] then XString (CRLF @ ''  '')
      else XObject None None [(''trans-unit'', map unit_xml items)])"

definition file_xml :: "string \<times> Item list \<Rightarrow> xml_value" where
  "file_xml f =
     XObject
       (Some [(''original'', fst f), (''source-language'', ''en''), (''datatype'', ''plaintext'')])
       None [(''body'', [body_xml (snd f)])]"

definition document_xml :: "(string \<times> Item list) list \<Rightarrow> xml_value" where
  "document_xml fs =
     XObject
       (Some [(''version'', ''1.2''), (''xmlns'', ''urn:oasis:names:tc:xliff:document:1.2'')])
       None (if fs = [] then [] else [(''file'', map file_xml fs)])"

text \<open>
  The reason the parse of such a text is rejected with: there is no file node; or the
  first file node has the empty path; or \<open>toLowerCase\<close> is read of the
  \<open>target-language\<close> attribute, which no file node has.
\<close>

definition rejection :: "(string \<times> Item list) list \<Rightarrow> reason" where
  "rejection fs =
     (case fs of
        [] \<Rightarrow> Reason no_file_nodes
      | f # rest \<Rightarrow> if fst f = [] then Reason no_original else Thrown TypeError)"
section \<open>Entities\<close>

lemma undo_lt:
  "replace_all ''&lt;'' ''<'' (concat (map encodeChar s)) = concat (map encodeGtAmp s)"
proof (induction s)
  case Nil
  show ?case by simp
next
  case (Cons c s)
  consider "c = CHR ''<''" | "c = CHR ''>''" | "c = CHR ''&''"
    | "c \<noteq> CHR ''<''" "c \<noteq> CHR ''>''" "c \<noteq> CHR ''&''"
    by blast
  then show ?case
    using Cons.IH by cases (simp_all add: encodeChar_def encodeGtAmp_def)
qed

lemma undo_gt:
  "replace_all ''&gt;'' ''>'' (concat (map encodeGtAmp s)) = concat (map encodeAmp s)"
proof (induction s)
  case Nil
  show ?case by simp
next
  case (Cons c s)
  consider "c = CHR ''>''" | "c = CHR ''&''" | "c \<noteq> CHR ''>''" "c \<noteq> CHR ''&''"
    by blast
  then show ?case
    using Cons.IH by cases (simp_all add: encodeGtAmp_def encodeAmp_def)
qed

lemma undo_amp: "replace_all ''&amp;'' ''&'' (concat (map encodeAmp s)) = s"
proof (induction s)
  case Nil
  show ?case by simp
next
  case (Cons c s)
  then show ?case by (cases "c = CHR ''&''") (simp_all add: encodeAmp_def)
qed

lemma decode_encode: "decodeEntities (encodeEntities s) = s"
  by (simp add: decodeEntities_def encodeEntities_def undo_lt undo_gt undo_amp)

text \<open>
  C10, as the code has it: \<open>encodeEntities\<close> replaces every \<open><\<close>, \<open>>\<close> and \<open>&\<close> of
  its argument by \<open>&lt;\<close>, \<open>&gt;\<close> and \<open>&amp;\<close> and leaves every other character as
  it is, and \<open>decodeEntities\<close> gives the argument back. Three characters are escaped, not
  four.
\<close>

theorem entities_three_characters:
  "encodeEntities s =
     concat (map (\<lambda>c. if c = CHR ''<'' then ''&lt;''
                       else if c = CHR ''>'' then ''&gt;''
                       else if c = CHR ''&'' then ''&amp;'' else [c]) s)
   \<and> decodeEntities (encodeEntities s) = s"
proof
  have "encodeChar = (\<lambda>c. if c = CHR ''<'' then ''&lt;''
                       else if c = CHR ''>'' then ''&gt;''
                       else if c = CHR ''&'' then ''&amp;'' else [c])"
    by (rule ext) (simp add: encodeChar_def)
  then show "encodeEntities s =
     concat (map (\<lambda>c. if c = CHR ''<'' then ''&lt;''
                       else if c = CHR ''>'' then ''&gt;''
                       else if c = CHR ''&'' then ''&amp;'' else [c]) s)"
    by (simp add: encodeEntities_def)
  show "decodeEntities (encodeEntities s) = s"
    by (rule decode_encode)
qed

theorem entities_three_characters_witness:
  "encodeEntities ''x<y & y>z'' = ''x&lt;y &amp; y&gt;z''
   \<and> decodeEntities ''x&lt;y &amp; y&gt;z'' = ''x<y & y>z''"
proof -
  note t = entities_three_characters [of "''x<y & y>z''"]
  have e: "encodeEntities ''x<y & y>z'' = ''x&lt;y &amp; y&gt;z''"
    using conjunct1 [OF t] by simp
  have d: "decodeEntities (encodeEntities ''x<y & y>z'') = ''x<y & y>z''"
    by (rule conjunct2 [OF t])
  show ?thesis using d unfolding e by (simp add: e)
qed

text \<open>
  C10 as the spec has it fails: the two quote characters, which XML also has entities
  for, are not replaced by \<open>encodeEntities\<close>, and their entities are not restored by
  \<open>decodeEntities\<close>.
\<close>

theorem entities_quotes_counterexample:
  "encodeEntities [CHR 0x22] = [CHR 0x22] \<and> encodeEntities [CHR 0x27] = [CHR 0x27]
   \<and> decodeEntities ''&quot;'' = ''&quot;'' \<and> decodeEntities ''&apos;'' = ''&apos;''"
  by (simp add: encodeEntities_def encodeChar_def decodeEntities_def)

section \<open>The XLIFF document\<close>

lemma join_append:
  "xs \<noteq> [] \<Longrightarrow> ys \<noteq> [] \<Longrightarrow> join sep (xs @ ys) = join sep xs @ sep @ join sep ys"
proof (induction sep xs rule: join.induct)
  case (1 sep)
  then show ?case by simp
next
  case (2 sep x)
  then show ?case by (cases ys) simp_all
next
  case (3 sep x y ys')
  then show ?case by simp
qed

lemma document_lines_nonempty: "appendHeader @ fs @ appendFooter \<noteq> []"
  by (simp add: appendHeader_def)

text \<open>
  C4 fails on the code: \<open>toString\<close> never empties \<open>buffer\<close>, so the second call returns
  the text of the first, a line break and the document once more.
\<close>

theorem toString_second_call:
  "fst (toString (snd (toString x))) =
     fst (toString x) @ CRLF @ fst (toString (x\<lparr>buffer := []\<rparr>))
   \<and> fst (toString (snd (toString x))) \<noteq> fst (toString x)"
proof -
  let ?L = "appendHeader @ concat (map appendFile (for_in (files x))) @ appendFooter"
  have L: "?L \<noteq> []" by (rule document_lines_nonempty)
  have "join CRLF ((buffer x @ ?L) @ ?L) = join CRLF (buffer x @ ?L) @ CRLF @ join CRLF ?L"
    using L by (intro join_append) simp_all
  then have "fst (toString (snd (toString x))) =
     fst (toString x) @ CRLF @ fst (toString (x\<lparr>buffer := []\<rparr>))"
    by (simp add: toString_def Let_def)
  then show ?thesis by (simp add: CRLF_def)
qed

lemma indexOf_mem: "k \<in> set ks \<Longrightarrow> \<exists>j. indexOf ks k = Some j \<and> j < length ks \<and> ks ! j = k"
  by (induction ks) auto

lemma map_of_set_property: "map_of (set_property k v kvs) k = Some v"
  by (induction kvs) auto

lemma indexOf_fresh: "x \<notin> set pre \<Longrightarrow> indexOf (pre @ x # rest) x = Some (length pre)"
  by (induction pre) auto

lemma kept_strings:
  "n \<le> length keys \<Longrightarrow>
   (KeyString k \<in> set (map ((!) keys) (filter (kept keys) [0..<n])))
     = (KeyString k \<in> set (take n keys))"
proof (induction n)
  case 0
  show ?case by simp
next
  case (Suc n)
  then have n: "n < length keys" and IH: "(KeyString k \<in> set (map ((!) keys) (filter (kept keys) [0..<n])))
     = (KeyString k \<in> set (take n keys))"
    by simp_all
  have t: "take (Suc n) keys = take n keys @ [keys ! n]"
    using n by (simp add: take_Suc_conv_app_nth)
  have "keys ! n = KeyString k \<Longrightarrow> \<not> kept keys n \<Longrightarrow> KeyString k \<in> set (take n keys)"
    by (simp add: kept_def)
  with IH show ?case
    unfolding t by auto
qed

lemma addFile_loop_kept:
  assumes "keys = pre @ rest" and "\<forall>i<length keys. kept keys i \<longrightarrow> i < length msgs"
  shows "addFile_loop keys msgs (length pre) rest
           (map ((!) keys) (filter (kept keys) [0..<length pre]))
           (map (item_at keys msgs) (filter (kept keys) [0..<length pre]))
         = Inr (map (item_at keys msgs) (filter (kept keys) [0..<length keys]))"
  using assms
proof (induction rest arbitrary: pre)
  case Nil
  then show ?case by simp
next
  case (Cons key rest)
  let ?n = "length pre"
  have keys: "keys = (pre @ [key]) @ rest" using Cons.prems(1) by simp
  have n: "?n < length keys" "keys ! ?n = key" "take ?n keys = pre"
    using Cons.prems(1) by simp_all
  note IH = Cons.IH [OF keys Cons.prems(2)]
  have up: "[0..<length (pre @ [key])] = [0..<?n] @ [?n]" by simp
  show ?case
  proof (cases key)
    case (KeyString k)
    have mem: "(KeyString k \<in> set (map ((!) keys) (filter (kept keys) [0..<?n])))
                 = (KeyString k \<in> set pre)"
      using kept_strings [of ?n keys k] n by simp
    have k: "kept keys ?n = (KeyString k \<notin> set pre)"
      using n KeyString by (simp add: kept_def)
    show ?thesis
    proof (cases "KeyString k \<in> set pre")
      case True
      with IH mem k KeyString show ?thesis
        unfolding up by simp
    next
      case False
      then have i: "indexOf keys (KeyString k) = Some ?n"
        using Cons.prems(1) KeyString indexOf_fresh by simp
      have "?n < length msgs"
        using Cons.prems(2) n(1) k False by simp
      then have m: "nth_opt msgs ?n = Some (msgs ! ?n)"
        by (simp add: nth_opt_def)
      have item: "item_at keys msgs ?n
          = \<lparr>item_id = k, item_message = encodeEntities (msgs ! ?n), item_comment = None\<rparr>"
        using n(2) KeyString by (simp add: item_at_def key_id_def key_comment_def)
      have f: "filter (kept keys) [0..<length (pre @ [key])] = filter (kept keys) [0..<?n] @ [?n]"
        unfolding up using k False by simp
      have e: "KeyString k \<notin> set (map ((!) keys) (filter (kept keys) [0..<?n]))"
        using mem False by simp
      have "addFile_loop keys msgs ?n (KeyString k # rest)
              (map ((!) keys) (filter (kept keys) [0..<?n]))
              (map (item_at keys msgs) (filter (kept keys) [0..<?n]))
            = addFile_loop keys msgs (Suc ?n) rest
              (map ((!) keys) (filter (kept keys) [0..<?n]) @ [KeyString k])
              (map (item_at keys msgs) (filter (kept keys) [0..<?n]) @ [item_at keys msgs ?n])"
        using e i m by (simp add: item del: set_map)
      also have "\<dots> = Inr (map (item_at keys msgs) (filter (kept keys) [0..<length keys]))"
        using IH n(2) KeyString unfolding f by simp
      finally show ?thesis using KeyString by simp
    qed
  next
    case (LocalizeInfo k c)
    have kp: "kept keys ?n"
      using n LocalizeInfo by (simp add: kept_def)
    then have "?n < length msgs"
      using Cons.prems(2) n(1) by simp
    then have m: "nth_opt msgs ?n = Some (msgs ! ?n)"
      by (simp add: nth_opt_def)
    have item: "item_at keys msgs ?n
        = \<lparr>item_id = k, item_message = encodeEntities (msgs ! ?n),
           item_comment =
             (case c of
                None \<Rightarrow> None
              | Some cs \<Rightarrow> if cs \<noteq> [] then Some (join CRLF (map encodeEntities cs)) else None)\<rparr>"
      using n(2) LocalizeInfo by (simp add: item_at_def key_id_def key_comment_def)
    have f: "filter (kept keys) [0..<length (pre @ [key])] = filter (kept keys) [0..<?n] @ [?n]"
      unfolding up using kp by simp
    have "addFile_loop keys msgs ?n (LocalizeInfo k c # rest)
              (map ((!) keys) (filter (kept keys) [0..<?n]))
              (map (item_at keys msgs) (filter (kept keys) [0..<?n]))
            = addFile_loop keys msgs (Suc ?n) rest
              (map ((!) keys) (filter (kept keys) [0..<?n]) @ [LocalizeInfo k c])
              (map (item_at keys msgs) (filter (kept keys) [0..<?n]) @ [item_at keys msgs ?n])"
      using m by (simp add: item)
    also have "\<dots> = Inr (map (item_at keys msgs) (filter (kept keys) [0..<length keys]))"
      using IH n(2) LocalizeInfo unfolding f by simp
    finally show ?thesis using LocalizeInfo by simp
  qed
qed

text \<open>
  \<open>addFile\<close> stores for the path the items of the positions kept, in their order,
  each with the message of its position; a position with a plain string is kept exactly
  when no earlier position holds the same string. So a plain-string id that occurs again
  is dropped, and the first occurrence keeps its message. (\<open>messages\<close> must have an
  element at every position kept.)
\<close>

theorem addFile_drops_duplicate_strings:
  assumes "\<forall>i<length keys. kept keys i \<longrightarrow> i < length msgs"
  shows "\<exists>x'. addFile original keys msgs x = Inr x'
           \<and> map_of (files x') original
               = Some (map (item_at keys msgs) (filter (kept keys) [0..<length keys]))
           \<and> (\<forall>i<length keys. \<forall>k. keys ! i = KeyString k
                  \<longrightarrow> kept keys i = (\<forall>j<i. keys ! j \<noteq> KeyString k))"
proof -
  have "addFile_loop keys msgs 0 keys [] []
        = Inr (map (item_at keys msgs) (filter (kept keys) [0..<length keys]))"
    using addFile_loop_kept [of keys "[]" keys msgs] assms by simp
  moreover have "\<forall>i<length keys. \<forall>k. keys ! i = KeyString k
                  \<longrightarrow> kept keys i = (\<forall>j<i. keys ! j \<noteq> KeyString k)"
    by (auto simp: kept_def in_set_conv_nth)
  ultimately show ?thesis
    by (simp add: addFile_def map_of_set_property)
qed

theorem addFile_drops_duplicate_strings_witness:
  "\<exists>x'. addFile ''path'' [KeyString ''k'', KeyString ''k''] [''m1'', ''m2''] (new_XLF ''proj'')
           = Inr x'
      \<and> map_of (files x') ''path''
          = Some [\<lparr>item_id = ''k'', item_message = ''m1'', item_comment = None\<rparr>]"
proof -
  have k: "kept [KeyString ''k'', KeyString ''k''] 0" "\<not> kept [KeyString ''k'', KeyString ''k''] 1"
    by (simp_all add: kept_def)
  have h: "\<forall>i<length [KeyString ''k'', KeyString ''k''].
             kept [KeyString ''k'', KeyString ''k''] i \<longrightarrow> i < length [''m1'', ''m2'']"
    by simp
  have u: "[0..<length [KeyString ''k'', KeyString ''k'']] = [0, 1]"
    by (simp add: upt_rec)
  obtain x' where
    "addFile ''path'' [KeyString ''k'', KeyString ''k''] [''m1'', ''m2''] (new_XLF ''proj'') = Inr x'"
    "map_of (files x') ''path''
       = Some (map (item_at [KeyString ''k'', KeyString ''k''] [''m1'', ''m2''])
                 (filter (kept [KeyString ''k'', KeyString ''k'']) [0, 1]))"
    using addFile_drops_duplicate_strings [OF h, of "''path''" "new_XLF ''proj''"]
    unfolding u by blast
  then show ?thesis
    using k by (simp add: item_at_def key_id_def key_comment_def encodeEntities_def encodeChar_def)
qed

text \<open>
  C5: duplicate ids after the first are not dropped in general. \<open>existingKeys.indexOf(key)\<close>
  finds a key only when the same string, or the very same object, was pushed before. Two
  keys given as objects \<open>{key: k}\<close> are two objects, and an object is never equal to the
  string \<open>k\<close>: for the keys \<open>[{key: k}, {key: k}]\<close> and for the keys \<open>[k, {key: k}]\<close>,
  \<open>addFile\<close> stores two items with the id \<open>k\<close>, the second with the second message. The
  comment in the loop says that duplicate keys are ignored.
\<close>

theorem addFile_keeps_duplicate_ids_of_objects:
  "addFile original [LocalizeInfo k None, LocalizeInfo k None] [m1, m2] x
     = Inr (x\<lparr>files := set_property original
              [\<lparr>item_id = k, item_message = encodeEntities m1, item_comment = None\<rparr>,
               \<lparr>item_id = k, item_message = encodeEntities m2, item_comment = None\<rparr>]
              (files x)\<rparr>)
   \<and> addFile original [KeyString k, LocalizeInfo k None] [m1, m2] x
     = Inr (x\<lparr>files := set_property original
              [\<lparr>item_id = k, item_message = encodeEntities m1, item_comment = None\<rparr>,
               \<lparr>item_id = k, item_message = encodeEntities m2, item_comment = None\<rparr>]
              (files x)\<rparr>)
   \<and> addFile ''path'' [LocalizeInfo ''k'' None, LocalizeInfo ''k'' None] [''m1'', ''m2'']
       (new_XLF ''proj'')
     = Inr \<lparr>project = ''proj'', buffer = [],
            files = [(''path'',
              [\<lparr>item_id = ''k'', item_message = ''m1'', item_comment = None\<rparr>,
               \<lparr>item_id = ''k'', item_message = ''m2'', item_comment = None\<rparr>])]\<rparr>"
  by (simp add: addFile_def nth_opt_def new_XLF_def encodeEntities_def encodeChar_def)

section \<open>Resources\<close>



section \<open>Length mismatch\<close>

text \<open>
  C8 fails on the code when \<open>keys\<close> is the longer array: \<open>importBundleJson\<close> and
  \<open>importModuleOrPackageJson\<close> log the mismatch and call \<open>addFile\<close>, which reads
  \<open>messages\<close> beyond its end and throws. When \<open>messages\<close> is the longer array the
  mismatch is logged and the document is emitted.
\<close>

theorem length_mismatch_keys_longer:
  "importBundleJson ''nls.metadata.json''
      [(''vs/base/a'', [KeyString ''k1'', KeyString ''k2''])] [(''vs/base/a'', [''m1''])]
     = ([mismatch_message ''nls.metadata.json''], Inl TypeError)
   \<and> importModuleOrPackageJson (\<lambda>p. 1) ''ext/a.nls.json''
        (ModuleJsonFormat [KeyString ''k1'', KeyString ''k2''] [''m1'']) ''proj'' None Map.empty
     = ([mismatch_message ''ext/a.nls.json''], Inl TypeError)
   \<and> importBundleJson ''nls.metadata.json''
        [(''vs/base/a'', [KeyString ''k1''])] [(''vs/base/a'', [''m1'', ''m2''])]
     = ([mismatch_message ''nls.metadata.json''],
        Inr [\<lparr>path = Path ''vscode-editor/vs_base.xlf'',
              contents = fst (toString \<lparr>project = ''vscode-editor'', buffer = [],
                files = [(''vs/base/a'',
                  [\<lparr>item_id = ''k1'', item_message = ''m1'', item_comment = None\<rparr>])]\<rparr>)\<rparr>])"
  by (simp add: importBundleJson_def importModuleOrPackageJson_def getResource_def startsWith_def
      addFile_def nth_opt_def editorProject_def new_XLF_def for_in_def is_array_index_def
      is_digit_def bundle_file_def replace_slashes_def extension_name_def truthy_def
      formattedSourcePath_def split_def encodeEntities_def encodeChar_def)

section \<open>Installer message files\<close>

lemma split_acc_first:
  "c \<notin> set k \<Longrightarrow> split_acc c acc (k @ c # v) = (rev acc @ k) # split_acc c [] v"
  by (induction k arbitrary: acc) auto

lemma createIslFile_line_data:
  assumes "data_key k"
  shows "createIslFile_line msgs lang (k @ ''='' @ v) =
     (if k = ''LanguageName'' then Inr [k @ ''='' @ interpolate (get_property languageNames lang)]
      else if k = ''LanguageID'' then Inr [k @ ''='' @ interpolate (get_property languageIds lang)]
      else if k = ''LanguageCodePage''
        then (case get_property encodings lang of
                Some (Own enc) \<Rightarrow> Inr [k @ ''='' @ drop 2 enc]
              | _ \<Rightarrow> Inl TypeError)
      else (case get_property msgs k of
              None \<Rightarrow> Inr [k @ ''='' @ v]
            | Some (Own t) \<Rightarrow> if t \<noteq> [] then Inr [k @ ''='' @ t] else Inr [k @ ''='' @ v]
            | Some (Inherited text) \<Rightarrow> Inr [k @ ''='' @ text]))"
proof -
  from assms have k: "k \<noteq> []" "CHR ''='' \<notin> set k" "hd k \<noteq> CHR ''[''" "hd k \<noteq> CHR '';''"
    by (simp_all add: data_key_def)
  have s: "split CHR ''='' (k @ ''='' @ v) = k # split CHR ''='' v"
    using split_acc_first [OF k(2), of "[]" v] by (simp add: split_def)
  have h: "hd (k @ ''='' @ v) = hd k" "k @ ''='' @ v \<noteq> []"
    using k(1) by simp_all
  show ?thesis
    unfolding createIslFile_line_def s h using k h(2)
    by (simp add: Let_def del: append.simps split: option.splits property.splits)
qed

text \<open>
  C9, as the code has it: a \<open>LanguageName\<close> line becomes \<open>LanguageName=Korean\<close> for
  \<open>kor\<close>; a \<open>LanguageCodePage\<close> line carries the encoding of the language without its
  first two characters; a data line with another key carries the message of its key when
  that message is not empty; it is left as it is when the message is empty, and when
  there is no message and the key names no member of \<open>Object.prototype\<close>.
\<close>

theorem createIslFile_line_substitution:
  assumes "data_key k" and "k \<notin> set metadata_keys"
  shows "createIslFile_line msgs ''kor'' (''LanguageName='' @ v) = Inr [''LanguageName=Korean'']
   \<and> (map_of encodings lang = Some enc
        \<longrightarrow> createIslFile_line msgs lang (''LanguageCodePage='' @ v)
              = Inr [''LanguageCodePage='' @ drop 2 enc])
   \<and> (map_of msgs k = Some t \<and> t \<noteq> []
        \<longrightarrow> createIslFile_line msgs lang (k @ ''='' @ v) = Inr [k @ ''='' @ t])
   \<and> (map_of msgs k = Some [] \<or> (map_of msgs k = None \<and> map_of Object_prototype k = None)
        \<longrightarrow> createIslFile_line msgs lang (k @ ''='' @ v) = Inr [k @ ''='' @ v])"
proof (intro conjI impI)
  have "data_key ''LanguageName''" by (simp add: data_key_def)
  from createIslFile_line_data [OF this, of msgs "''kor''" v]
  show "createIslFile_line msgs ''kor'' (''LanguageName='' @ v) = Inr [''LanguageName=Korean'']"
    by (simp add: languageNames_def interpolate_def get_property_def)
next
  assume e: "map_of encodings lang = Some enc"
  have "data_key ''LanguageCodePage''" by (simp add: data_key_def)
  from createIslFile_line_data [OF this, of msgs lang v] e
  show "createIslFile_line msgs lang (''LanguageCodePage='' @ v)
          = Inr [''LanguageCodePage='' @ drop 2 enc]"
    by (simp add: get_property_def)
next
  assume "map_of msgs k = Some t \<and> t \<noteq> []"
  with createIslFile_line_data [OF assms(1), of msgs lang v] assms(2)
  show "createIslFile_line msgs lang (k @ ''='' @ v) = Inr [k @ ''='' @ t]"
    by (simp add: metadata_keys_def get_property_def)
next
  assume "map_of msgs k = Some [] \<or> (map_of msgs k = None \<and> map_of Object_prototype k = None)"
  with createIslFile_line_data [OF assms(1), of msgs lang v] assms(2)
  show "createIslFile_line msgs lang (k @ ''='' @ v) = Inr [k @ ''='' @ v]"
    by (auto simp: metadata_keys_def get_property_def)
qed

theorem createIslFile_line_substitution_witness:
  "createIslFile_line [(''Foo'', ''Uebersetzung'')] ''kor'' ''LanguageName=English''
     = Inr [''LanguageName=Korean'']
   \<and> createIslFile_line [(''Foo'', ''Uebersetzung'')] ''kor'' ''LanguageCodePage=1252''
     = Inr [''LanguageCodePage=949'']
   \<and> createIslFile_line [(''Foo'', ''Uebersetzung'')] ''kor'' ''Foo=Bar''
     = Inr [''Foo=Uebersetzung'']
   \<and> createIslFile_line [] ''kor'' ''Foo=Bar'' = Inr [''Foo=Bar'']"
proof -
  have k: "data_key ''Foo''" "''Foo'' \<notin> set metadata_keys"
    by (simp_all add: data_key_def metadata_keys_def)
  have e: "map_of encodings ''kor'' = Some ''CP949''"
    by (simp add: encodings_def)
  have p: "map_of Object_prototype ''Foo'' = None"
    by (simp add: Object_prototype_def)
  note a = createIslFile_line_substitution
    [OF k, of "[(''Foo'', ''Uebersetzung'')]" "''English''" "''kor''" "''CP949''" "''Uebersetzung''"]
  note b = createIslFile_line_substitution
    [OF k, of "[(''Foo'', ''Uebersetzung'')]" "''1252''" "''kor''" "''CP949''" "''Uebersetzung''"]
  note c1 = createIslFile_line_substitution
    [OF k, of "[(''Foo'', ''Uebersetzung'')]" "''Bar''" "''kor''" "''CP949''" "''Uebersetzung''"]
  note d = createIslFile_line_substitution
    [OF k, of "[]" "''Bar''" "''kor''" "''CP949''" "''Uebersetzung''"]
  show ?thesis
    using a b c1 d e p by simp
qed

text \<open>
  C9 as the spec has it fails for an empty message: the line is left as it is, where
  the claim has \<open>Foo=\<close>.
\<close>

theorem createIslFile_line_empty_message_counterexample:
  "createIslFile_line [(''Foo'', '''')] ''kor'' ''Foo=Bar'' = Inr [''Foo=Bar'']
   \<and> createIslFile_line [(''Foo'', '''')] ''kor'' ''Foo=Bar'' \<noteq> Inr [''Foo='' @ '''']"
  by (simp add: createIslFile_line_def split_def metadata_keys_def get_property_def)

text \<open>
  A key without a message that names a member of \<open>Object.prototype\<close> is not left as
  it is: \<open>messages[key]\<close> finds the inherited member, and the line carries its text.
\<close>

lemma createIslFile_line_inherited_member:
  "createIslFile_line [] ''kor'' ''constructor=Bar''
     = Inr [''constructor=function Object() { [native code] }'']"
  by (simp add: createIslFile_line_def split_def metadata_keys_def get_property_def
      Object_prototype_def)
section \<open>Counting the files of an extension\<close>

lemma addFile_loop_total:
  assumes "set rest \<subseteq> set keys" and "length keys \<le> length msgs"
    and "i + length rest \<le> length msgs"
  shows "\<exists>items'. addFile_loop keys msgs i rest existingKeys items = Inr items'"
  using assms
proof (induction rest arbitrary: i existingKeys items)
  case Nil
  then show ?case by simp
next
  case (Cons key rest)
  have rest: "set rest \<subseteq> set keys" "Suc i + length rest \<le> length msgs"
    using Cons.prems by simp_all
  note IH = Cons.IH [OF rest(1) Cons.prems(2) rest(2)]
  show ?case
  proof (cases key)
    case (KeyString k)
    then have "KeyString k \<in> set keys" using Cons.prems(1) by simp
    then obtain j where j: "indexOf keys (KeyString k) = Some j" "j < length keys"
      using indexOf_mem by metis
    then have "nth_opt msgs j = Some (msgs ! j)"
      using Cons.prems(2) by (simp add: nth_opt_def)
    with j KeyString IH show ?thesis by simp
  next
    case (LocalizeInfo k c)
    have "nth_opt msgs i = Some (msgs ! i)"
      using Cons.prems(3) by (simp add: nth_opt_def)
    with LocalizeInfo IH show ?thesis by simp
  qed
qed

lemma addFile_total:
  "length keys \<le> length msgs \<Longrightarrow> \<exists>x'. addFile original keys msgs x = Inr x'"
  using addFile_loop_total [of keys keys msgs 0 "[]" "[]"]
  by (auto simp: addFile_def)

lemma addFile_complete:
  assumes "complete js"
  shows "\<exists>x'. (case js of
             ModuleJsonFormat keys msgs \<Rightarrow> addFile original keys msgs x
           | PackageJsonFormat kvs \<Rightarrow>
               addFile original (map (KeyString \<circ> fst) kvs)
                 (map (package_value_toString \<circ> snd) kvs) x) = Inr x'"
proof (cases js)
  case (ModuleJsonFormat keys msgs)
  with assms addFile_total [of keys msgs original x] show ?thesis
    by (simp add: complete_def)
next
  case (PackageJsonFormat kvs)
  with addFile_total [of "map (KeyString \<circ> fst) kvs" "map (package_value_toString \<circ> snd) kvs"
      original x]
  show ?thesis by simp
qed

lemma import_step:
  assumes "complete js"
  shows "\<exists>exts' fs. snd (importModuleOrPackageJson glob relative js projectName extensionName exts)
             = Inr (exts', fs)
     \<and> processed_of exts' (extension_name extensionName relative)
         = Suc (processed_of exts (extension_name extensionName relative))
     \<and> (\<forall>e'. e' \<noteq> extension_name extensionName relative \<longrightarrow> exts' e' = exts e')
     \<and> (Suc (processed_of exts (extension_name extensionName relative))
           = glob (glob_pattern extensionName relative)
         \<longrightarrow> (\<exists>c. fs = [\<lparr>path = xlf_path projectName (extension_name extensionName relative),
                            contents = c\<rparr>]))
     \<and> (Suc (processed_of exts (extension_name extensionName relative))
           \<noteq> glob (glob_pattern extensionName relative)
         \<longrightarrow> fs = [])"
proof -
  define e where "e = (case exts (extension_name extensionName relative) of
                 Some e \<Rightarrow> e
               | None \<Rightarrow> \<lparr>xlf = new_XLF projectName, processed = 0\<rparr>)"
  have p: "processed e = processed_of exts (extension_name extensionName relative)"
    by (simp add: e_def processed_of_def split: option.splits)
  obtain x' where x': "(case js of
             ModuleJsonFormat keys msgs \<Rightarrow>
               addFile (originalFilePath_of extensionName relative) keys msgs (xlf e)
           | PackageJsonFormat kvs \<Rightarrow>
               addFile (originalFilePath_of extensionName relative) (map (KeyString \<circ> fst) kvs)
                 (map (package_value_toString \<circ> snd) kvs) (xlf e)) = Inr x'"
    using addFile_complete [OF assms] by blast
  show ?thesis
    unfolding importModuleOrPackageJson_def Let_def e_def [symmetric] x'
    by (simp add: p processed_of_def xlf_path_def)
qed














text \<open>
  C2, as the code has it: every call reads the number of files from the file system of
  that call, and puts a file on the stream exactly when the number of files processed,
  counted up by this call, equals the number it has just read. What is kept for an
  extension is its document and the number of files processed.
\<close>

theorem count_read_on_every_call:
  assumes "complete js"
  shows "\<exists>exts' fs.
           snd (importModuleOrPackageJson glob relative js projectName extensionName exts)
             = Inr (exts', fs)
           \<and> (fs \<noteq> []) = (Suc (processed_of exts (extension_name extensionName relative))
                            = glob (glob_pattern extensionName relative))
           \<and> processed_of exts' (extension_name extensionName relative)
               = Suc (processed_of exts (extension_name extensionName relative))"
proof -
  obtain exts' fs where step:
    "snd (importModuleOrPackageJson glob relative js projectName extensionName exts)
       = Inr (exts', fs)"
    "processed_of exts' (extension_name extensionName relative)
       = Suc (processed_of exts (extension_name extensionName relative))"
    "Suc (processed_of exts (extension_name extensionName relative))
       = glob (glob_pattern extensionName relative)
       \<longrightarrow> (\<exists>c. fs = [\<lparr>path = xlf_path projectName (extension_name extensionName relative),
                          contents = c\<rparr>])"
    "Suc (processed_of exts (extension_name extensionName relative))
       \<noteq> glob (glob_pattern extensionName relative) \<longrightarrow> fs = []"
    using import_step [OF assms, of glob relative projectName extensionName exts] by blast
  have "(fs \<noteq> []) = (Suc (processed_of exts (extension_name extensionName relative))
                            = glob (glob_pattern extensionName relative))"
    using step(3,4) by auto
  with step(1,2) show ?thesis by blast
qed

theorem count_read_on_every_call_witness:
  "\<exists>exts' fs.
     snd (importModuleOrPackageJson (\<lambda>pat. 1) ''ext1/a.nls.json''
            (ModuleJsonFormat [KeyString ''k''] [''m'']) ''proj'' None Map.empty)
       = Inr (exts', fs)
     \<and> fs \<noteq> [] \<and> processed_of exts' ''ext1'' = 1"
proof -
  have c: "complete (ModuleJsonFormat [KeyString ''k''] [''m''])"
    by (simp add: complete_def)
  have n: "extension_name None ''ext1/a.nls.json'' = ''ext1''"
    by (simp add: extension_name_def truthy_def formattedSourcePath_def split_def)
  show ?thesis
    using count_read_on_every_call [OF c, of "\<lambda>pat. 1" "''ext1/a.nls.json''" "''proj''" None Map.empty]
    by (simp add: n processed_of_def)
qed

text \<open>
  C2 as the spec has it fails: two runs of the same two files that differ only in what
  the file system holds when the second file arrives. Were the count fixed at the first
  file, both runs would put a file on the stream at the second.
\<close>

theorem count_recomputed_counterexample:
  "emissions (importModuleOrPackageJson_run ''proj'' None
       [(\<lambda>pat. 2, ''ext1/a.nls.json'', ModuleJsonFormat [KeyString ''k''] [''m'']),
        (\<lambda>pat. 2, ''ext1/b.nls.json'', ModuleJsonFormat [KeyString ''k''] [''m''])]
       Map.empty) = [0, 1]
   \<and> emissions (importModuleOrPackageJson_run ''proj'' None
       [(\<lambda>pat. 2, ''ext1/a.nls.json'', ModuleJsonFormat [KeyString ''k''] [''m'']),
        (\<lambda>pat. 3, ''ext1/b.nls.json'', ModuleJsonFormat [KeyString ''k''] [''m''])]
       Map.empty) = [0, 0]"
  by (simp add: emissions_def importModuleOrPackageJson_def extension_name_def truthy_def
      formattedSourcePath_def split_def addFile_def nth_opt_def new_XLF_def Let_def
      originalFilePath_of_def without_nls_json_def)

section \<open>Parsing XLIFF\<close>

lemma toLowerCase_empty: "(toLowerCase l = []) = (l = [])"
  by (simp add: toLowerCase_def)

lemma parse_unit_fails:
  assumes "unit_attributes u \<noteq> None"
  shows "(\<exists>r. parse_unit msgs u = Inl r) = unit_fails u"
    and "unit_target u = None \<Longrightarrow> parse_unit msgs u = Inr msgs"
  using assms
  by (auto simp: parse_unit_def unit_fails_def attribute_def Let_def split: option.splits)

lemma parse_unit_cases: "(\<exists>r. parse_unit msgs u = Inl r) \<or> (\<exists>m. parse_unit msgs u = Inr m)"
  by (cases "parse_unit msgs u") auto

lemma parse_units_fails:
  assumes "list_all (\<lambda>u. unit_attributes u \<noteq> None) units"
  shows "(\<exists>r. parse_units msgs units = Inl r) = list_ex unit_fails units"
  using assms
proof (induction units arbitrary: msgs)
  case Nil
  show ?case by simp
next
  case (Cons u units)
  then have a: "unit_attributes u \<noteq> None"
    and IH: "\<And>m. (\<exists>r. parse_units m units = Inl r) = list_ex unit_fails units"
    by simp_all
  show ?case
  proof (cases "parse_unit msgs u")
    case (Inl r)
    then have "unit_fails u" using parse_unit_fails(1) [OF a, of msgs] by auto
    with Inl show ?thesis by simp
  next
    case (Inr m)
    then have "\<not> unit_fails u" using parse_unit_fails(1) [OF a, of msgs] by auto
    with Inr IH [of m] show ?thesis by simp
  qed
qed

lemma parse_units_drop:
  assumes "list_all (\<lambda>u. unit_attributes u \<noteq> None) units"
  shows "parse_units msgs (filter (\<lambda>u. unit_target u \<noteq> None) units) = parse_units msgs units"
  using assms
proof (induction units arbitrary: msgs)
  case Nil
  show ?case by simp
next
  case (Cons u units)
  then have a: "unit_attributes u \<noteq> None"
    and IH: "\<And>m. parse_units m (filter (\<lambda>u. unit_target u \<noteq> None) units) = parse_units m units"
    by simp_all
  show ?case
  proof (cases "unit_target u = None")
    case True
    with parse_unit_fails(2) [OF a True, of msgs] IH show ?thesis by simp
  next
    case False
    with IH show ?thesis by (simp split: sum.splits)
  qed
qed

lemma parse_file_fails:
  assumes "well_shaped file"
  shows "(\<exists>r. parse_file file = Inl r) = file_fails file"
proof -
  from assms obtain attrs units bodies where f:
    "file_attributes file = Some attrs" "file_body file = Some (Some units # bodies)"
    "list_all (\<lambda>u. unit_attributes u \<noteq> None) units"
    by (auto simp: well_shaped_def split: option.splits list.splits)
  note u = parse_units_fails [OF f(3), of "[]"]
  show ?thesis
  proof (cases "parse_units [] units")
    case (Inl r)
    then have "list_ex unit_fails units" using u by auto
    with Inl show ?thesis
      by (auto simp: parse_file_def file_fails_def attribute_def body_units_def f
          toLowerCase_empty truthy_def split: option.splits)
  next
    case (Inr m)
    then have "\<not> list_ex unit_fails units" using u by auto
    with Inr show ?thesis
      by (auto simp: parse_file_def file_fails_def attribute_def body_units_def f
          toLowerCase_empty truthy_def split: option.splits)
  qed
qed

lemma parse_file_drop:
  assumes "well_shaped file"
  shows "parse_file (drop_untargeted file) = parse_file file"
proof -
  from assms obtain attrs units bodies where f:
    "file_attributes file = Some attrs" "file_body file = Some (Some units # bodies)"
    "list_all (\<lambda>u. unit_attributes u \<noteq> None) units"
    by (auto simp: well_shaped_def split: option.splits list.splits)
  have a: "file_attributes (drop_untargeted file) = Some attrs"
    and b: "file_body (drop_untargeted file)
            = Some (Some (filter (\<lambda>u. unit_target u \<noteq> None) units) # bodies)"
    by (simp_all add: drop_untargeted_def f)
  show ?thesis
    unfolding parse_file_def a b f
    by (simp add: parse_units_drop [OF f(3)] del: not_None_eq split: option.splits)
qed

lemma parse_files_fails:
  assumes "\<forall>file\<in>set fileNodes. well_shaped file"
  shows "(\<exists>r. parse_files fileNodes = Inl r) = (\<exists>file\<in>set fileNodes. file_fails file)"
  using assms
proof (induction fileNodes)
  case Nil
  show ?case by simp
next
  case (Cons f fileNodes)
  then have w: "well_shaped f"
    and IH: "(\<exists>r. parse_files fileNodes = Inl r) = (\<exists>file\<in>set fileNodes. file_fails file)"
    by simp_all
  show ?case
  proof (cases "parse_file f")
    case (Inl r)
    then have "file_fails f" using parse_file_fails [OF w] by auto
    with Inl show ?thesis by simp
  next
    case (Inr p)
    then have "\<not> file_fails f" using parse_file_fails [OF w] by auto
    with Inr IH show ?thesis by (cases "parse_files fileNodes") auto
  qed
qed

lemma parse_files_drop:
  assumes "\<forall>file\<in>set fileNodes. well_shaped file"
  shows "parse_files (map drop_untargeted fileNodes) = parse_files fileNodes"
  using assms by (induction fileNodes) (simp_all add: parse_file_drop split: sum.splits)

text \<open>
  C6, as the code has it, for file nodes that are well shaped: the parse is rejected
  exactly when a file node fails, that is when its \<open>original\<close> or its
  \<open>target-language\<close> is absent or empty, or when one of its units has a target but no id,
  an empty id, or a target that gives the empty string. Units without a target change
  nothing: the outcome is the one of the document without them. A parser error, a
  missing result, a missing \<open>xliff\<close> and a missing \<open>file\<close> array are rejected.
\<close>

theorem parse_rejected_exactly:
  assumes "\<forall>file\<in>set fileNodes. well_shaped file"
  shows "(\<exists>r. XLF_parse (Result (Some \<lparr>xliff_file = Some fileNodes\<rparr>)) = Rejected r)
           = (\<exists>file\<in>set fileNodes. file_fails file)
   \<and> XLF_parse (Result (Some \<lparr>xliff_file = Some (map drop_untargeted fileNodes)\<rparr>))
       = XLF_parse (Result (Some \<lparr>xliff_file = Some fileNodes\<rparr>))
   \<and> (\<exists>r. XLF_parse (ParserError err) = Rejected r)
   \<and> (\<exists>r. XLF_parse NoResult = Rejected r)
   \<and> (\<exists>r. XLF_parse (Result None) = Rejected r)
   \<and> (\<exists>r. XLF_parse (Result (Some \<lparr>xliff_file = None\<rparr>)) = Rejected r)"
proof (intro conjI)
  show "(\<exists>r. XLF_parse (Result (Some \<lparr>xliff_file = Some fileNodes\<rparr>)) = Rejected r)
           = (\<exists>file\<in>set fileNodes. file_fails file)"
    using parse_files_fails [OF assms]
    by (cases "parse_files fileNodes") (auto simp: XLF_parse_def)
  show "XLF_parse (Result (Some \<lparr>xliff_file = Some (map drop_untargeted fileNodes)\<rparr>))
       = XLF_parse (Result (Some \<lparr>xliff_file = Some fileNodes\<rparr>))"
    by (simp add: XLF_parse_def parse_files_drop [OF assms])
qed (simp_all add: XLF_parse_def)

theorem parse_rejected_exactly_witness:
  "\<not> (\<exists>r. XLF_parse (Result (Some \<lparr>xliff_file = Some
          [\<lparr>file_attributes = Some [(''original'', ''a''), (''target-language'', ''DE'')],
            file_body = Some [Some
              [\<lparr>unit_attributes = Some [(''id'', ''k1'')], unit_target = Some [Text ''t1'']\<rparr>,
               \<lparr>unit_attributes = Some [(''id'', ''k2'')], unit_target = None\<rparr>]]\<rparr>]\<rparr>))
        = Rejected r)
   \<and> XLF_parse (Result (Some \<lparr>xliff_file = Some
          [\<lparr>file_attributes = Some [(''original'', ''a''), (''target-language'', ''DE'')],
            file_body = Some [Some
              [\<lparr>unit_attributes = Some [(''id'', ''k1'')], unit_target = Some [Text ''t1'']\<rparr>,
               \<lparr>unit_attributes = Some [(''id'', ''k2'')], unit_target = None\<rparr>]]\<rparr>]\<rparr>))
     = XLF_parse (Result (Some \<lparr>xliff_file = Some
          [\<lparr>file_attributes = Some [(''original'', ''a''), (''target-language'', ''DE'')],
            file_body = Some [Some
              [\<lparr>unit_attributes = Some [(''id'', ''k1'')], unit_target = Some [Text ''t1'']\<rparr>]]\<rparr>]\<rparr>))"
proof -
  let ?f = "\<lparr>file_attributes = Some [(''original'', ''a''), (''target-language'', ''DE'')],
            file_body = Some [Some
              [\<lparr>unit_attributes = Some [(''id'', ''k1'')], unit_target = Some [Text ''t1'']\<rparr>,
               \<lparr>unit_attributes = Some [(''id'', ''k2'')], unit_target = None\<rparr>]]\<rparr>"
  have w: "\<forall>file\<in>set [?f]. well_shaped file"
    by (simp add: well_shaped_def)
  have nf: "\<not> (\<exists>file\<in>set [?f]. file_fails file)"
    by (simp add: file_fails_def attribute_def truthy_def body_units_def unit_fails_def
        array_toString_def)
  have d: "map drop_untargeted [?f] =
      [\<lparr>file_attributes = Some [(''original'', ''a''), (''target-language'', ''DE'')],
            file_body = Some [Some
              [\<lparr>unit_attributes = Some [(''id'', ''k1'')], unit_target = Some [Text ''t1'']\<rparr>]]\<rparr>]"
    by (simp add: drop_untargeted_def)
  note t = parse_rejected_exactly [OF w, of "''e''"]
  from t nf have "\<not> (\<exists>r. XLF_parse (Result (Some \<lparr>xliff_file = Some [?f]\<rparr>)) = Rejected r)"
    by blast
  moreover from t have "XLF_parse (Result (Some \<lparr>xliff_file = Some [?f]\<rparr>))
      = XLF_parse (Result (Some \<lparr>xliff_file = Some (map drop_untargeted [?f])\<rparr>))"
    by simp
  ultimately show ?thesis
    unfolding d by blast
qed

text \<open>
  C6 as the spec has it fails: a unit with a target and without an id is rejected, and
  none of the conditions of the spec holds.
\<close>

theorem parse_rejected_without_id_counterexample:
  "XLF_parse (Result (Some \<lparr>xliff_file = Some
      [\<lparr>file_attributes = Some [(''original'', ''a''), (''target-language'', ''de'')],
        file_body = Some [Some
          [\<lparr>unit_attributes = Some [(''resname'', ''r'')], unit_target = Some [Text ''t'']\<rparr>]]\<rparr>]\<rparr>))
     = Rejected (Reason no_localization_data)
   \<and> \<not> spec_rejected (Result (Some \<lparr>xliff_file = Some
      [\<lparr>file_attributes = Some [(''original'', ''a''), (''target-language'', ''de'')],
        file_body = Some [Some
          [\<lparr>unit_attributes = Some [(''resname'', ''r'')], unit_target = Some [Text ''t'']\<rparr>]]\<rparr>]\<rparr>))"
  by (simp add: XLF_parse_def parse_file_def parse_unit_def truthy_def toLowerCase_def
      lower_char_def array_toString_def spec_rejected_def spec_unit_rejected_def attribute_def
      body_units_def)

section \<open>Serializing and parsing\<close>

text \<open>The definitions that one step of the scanner unfolds.\<close>

lemmas scan = openTag_def closeTag_def attrib_def isWhitespace_def nameStart_def nameBody_def
  XML_ENTITIES_def modelled_def Object_prototype_def

lemma write_append:
  "sax_write s (a @ b) = (case sax_write s a of None \<Rightarrow> None | Some s' \<Rightarrow> sax_write s' b)"
proof (induction a arbitrary: s)
  case Nil
  show ?case by simp
next
  case (Cons c a)
  obtain m stack root where s: "s = (m, stack, root)" by (cases s)
  show ?case unfolding s using Cons.IH by (simp split: option.splits)
qed

lemma write_value:
  assumes "plain v"
  shows "sax_write (ATTRIB_VALUE_QUOTED t as n (CHR 0x22) acc, stack, root) v
         = Some (ATTRIB_VALUE_QUOTED t as n (CHR 0x22) (acc @ v), stack, root)"
  using assms by (induction v arbitrary: acc) (auto simp: plain_def)

lemma write_encoded:
  "sax_write (TEXT, Frame n as ch ks # rest, root) (encodeEntities m)
   = Some (TEXT, Frame n as (ch @ m) ks # rest, root)"
proof (induction m arbitrary: ch)
  case Nil
  show ?case by (simp add: encodeEntities_def)
next
  case (Cons c m)
  have e: "encodeEntities (c # m) = encodeChar c @ encodeEntities m"
    by (simp add: encodeEntities_def)
  have "sax_write (TEXT, Frame n as ch ks # rest, root) (encodeChar c)
        = Some (TEXT, Frame n as (ch @ [c]) ks # rest, root)"
    by (simp add: encodeChar_def XML_ENTITIES_def)
  then show ?case
    unfolding e using Cons.IH [of "ch @ [c]"] by (simp add: write_append)
qed

lemma write_stored:
  assumes "stored s"
  shows "sax_write (TEXT, Frame n as ch ks # rest, root) s
   = Some (TEXT, Frame n as (ch @ decodeEntities s) ks # rest, root)"
  using write_encoded [of n as ch ks rest root "decodeEntities s"] assms
  by (simp add: stored_def)

lemma write_value_then:
  "plain v \<Longrightarrow>
   sax_write (ATTRIB_VALUE_QUOTED t as n (CHR 0x22) acc, stack, root) (v @ b)
   = sax_write (ATTRIB_VALUE_QUOTED t as n (CHR 0x22) (acc @ v), stack, root) b"
  by (simp add: write_append write_value)

lemma write_stored_then:
  "stored s \<Longrightarrow>
   sax_write (TEXT, Frame n as ch ks # rest, root) (s @ b)
   = sax_write (TEXT, Frame n as (ch @ decodeEntities s) ks # rest, root) b"
  by (simp add: write_append write_stored)

lemma spaces: "replicate 2 c = [c, c]" "replicate 4 c = [c, c, c, c]"
  "replicate 6 c = [c, c, c, c, c, c]" for c :: char
  by (simp_all add: numeral_eq_Suc)

lemma write_item:
  assumes "serializable_item i"
  shows "sax_write (TEXT, Frame n as ch ks # rest, None)
           (concat (map (\<lambda>l. l @ CRLF) (addStringItem i)) @ b)
         = sax_write (TEXT,
             Frame n as (ch @ ''    '' @ CRLF) (assignOrPush ''trans-unit'' (unit_xml i) ks) # rest,
             None) b"
proof -
  from assms have p: "plain (item_id i)" and m: "stored (item_message i)"
    by (simp_all add: serializable_item_def)
  show ?thesis
  proof (cases "item_comment i")
    case None
    then show ?thesis
      using p m
      by (simp add: addStringItem_def Line_def spaces CRLF_def scan write_value_then
          write_stored_then unit_xml_def unit_children_def element_value_def regex_space_def)
  next
    case (Some c)
    with assms have c: "stored c" by (simp add: serializable_item_def)
    show ?thesis
      using p m c Some
      by (simp add: addStringItem_def Line_def spaces CRLF_def scan write_value_then
          write_stored_then unit_xml_def unit_children_def element_value_def regex_space_def)
  qed
qed


lemma push_units:
  "foldl (\<lambda>ks i. assignOrPush ''trans-unit'' (unit_xml i) ks) [(''trans-unit'', vs)] items
   = [(''trans-unit'', vs @ map unit_xml items)]"
  by (induction items arbitrary: vs) simp_all

lemma push_files:
  "foldl (\<lambda>ks f. assignOrPush ''file'' (file_xml f) ks) [(''file'', vs)] fs
   = [(''file'', vs @ map file_xml fs)]"
  by (induction fs arbitrary: vs) simp_all

lemma space_items: "list_all regex_space (concat (map (\<lambda>i. ''    '' @ CRLF) items))"
  by (induction items) (simp_all add: regex_space_def CRLF_def)

lemma space_files: "list_all regex_space (concat (map (\<lambda>f. ''  '' @ CRLF) fs))"
  by (induction fs) (simp_all add: regex_space_def CRLF_def)

lemma write_items:
  assumes "list_all serializable_item items"
  shows "sax_write (TEXT, Frame n as ch ks # rest, None)
           (concat (map (\<lambda>l. l @ CRLF) (concat (map addStringItem items))) @ b)
         = sax_write (TEXT,
             Frame n as (ch @ concat (map (\<lambda>i. ''    '' @ CRLF) items))
               (foldl (\<lambda>ks i. assignOrPush ''trans-unit'' (unit_xml i) ks) ks items) # rest,
             None) b"
  using assms
proof (induction items arbitrary: ch ks)
  case Nil
  show ?case by simp
next
  case (Cons i items)
  from Cons.prems have i: "serializable_item i" and r: "list_all serializable_item items"
    by simp_all
  show ?case
    using write_item [OF i] Cons.IH [OF r] by simp
qed

lemma write_file:
  assumes "plain (fst f)" and "list_all serializable_item (snd f)"
  shows "sax_write (TEXT, Frame n as ch ks # rest, None)
           (concat (map (\<lambda>l. l @ CRLF) (appendFile f)) @ b)
         = sax_write (TEXT,
             Frame n as (ch @ ''  '' @ CRLF) (assignOrPush ''file'' (file_xml f) ks) # rest,
             None) b"
proof (cases "snd f = []")
  case True
  then show ?thesis
    using assms(1)
    by (simp add: appendFile_def Line_def spaces CRLF_def scan write_value_then
        file_xml_def body_xml_def element_value_def regex_space_def)
next
  case False
  then obtain i items where s: "snd f = i # items" by (cases "snd f") auto
  show ?thesis
    using assms(1) False write_items [OF assms(2)] space_items [of "snd f"]
    by (simp add: appendFile_def Line_def spaces CRLF_def scan write_value_then
        file_xml_def body_xml_def element_value_def regex_space_def push_units s)
qed


lemma write_files:
  assumes "list_all (\<lambda>f. plain (fst f) \<and> list_all serializable_item (snd f)) fs"
  shows "sax_write (TEXT, Frame n as ch ks # rest, None)
           (concat (map (\<lambda>l. l @ CRLF) (concat (map appendFile fs))) @ b)
         = sax_write (TEXT,
             Frame n as (ch @ concat (map (\<lambda>f. ''  '' @ CRLF) fs))
               (foldl (\<lambda>ks f. assignOrPush ''file'' (file_xml f) ks) ks fs) # rest,
             None) b"
  using assms
proof (induction fs arbitrary: ch ks)
  case Nil
  show ?case by simp
next
  case (Cons f fs)
  from Cons.prems have f: "plain (fst f)" "list_all serializable_item (snd f)"
    and r: "list_all (\<lambda>f. plain (fst f) \<and> list_all serializable_item (snd f)) fs"
    by simp_all
  show ?case
    using write_file [OF f] Cons.IH [OF r] by simp
qed

lemma join_lines: "join CRLF (ls @ [l]) = concat (map (\<lambda>x. x @ CRLF) ls) @ l"
proof (induction ls)
  case Nil
  show ?case by simp
next
  case (Cons a ls)
  then show ?case by (cases ls) simp_all
qed

lemma write_document:
  assumes "list_all (\<lambda>f. plain (fst f) \<and> list_all serializable_item (snd f)) fs"
  shows "sax_write (TEXT, [], None) (join CRLF (appendHeader @ concat (map appendFile fs) @ appendFooter))
         = Some (TEXT, [], Some (''xliff'', document_xml fs))"
proof -
  have t: "join CRLF (appendHeader @ concat (map appendFile fs) @ appendFooter)
      = concat (map (\<lambda>x. x @ CRLF) appendHeader)
        @ concat (map (\<lambda>x. x @ CRLF) (concat (map appendFile fs))) @ ''</xliff>''"
    using join_lines [of "appendHeader @ concat (map appendFile fs)" "''</xliff>''"]
    by (simp add: appendFooter_def Line_def)
  have h: "sax_write (TEXT, [], None) (concat (map (\<lambda>x. x @ CRLF) appendHeader) @ b)
      = sax_write (TEXT,
          [Frame ''xliff''
             [(''version'', ''1.2''), (''xmlns'', ''urn:oasis:names:tc:xliff:document:1.2'')]
             CRLF []], None) b" for b
    by (simp add: appendHeader_def Line_def CRLF_def scan)
  show ?thesis
  proof (cases fs)
    case Nil
    then show ?thesis
      unfolding t h
      by (simp add: CRLF_def scan document_xml_def element_value_def regex_space_def)
  next
    case (Cons f fs')
    then show ?thesis
      unfolding t h write_files [OF assms]
      using space_files [of fs]
      by (simp add: CRLF_def scan document_xml_def element_value_def regex_space_def push_files)
  qed
qed

lemma set_for_in: "set (for_in kvs) = set kvs"
  by (auto simp: for_in_def)

lemma parse_document:
  "XLF_parse (Result (Some (xliff_of (document_xml fs)))) = Rejected (rejection fs)"
proof (cases fs)
  case Nil
  then show ?thesis
    by (simp add: document_xml_def XLF_parse_def rejection_def)
next
  case (Cons f fs')
  then show ?thesis
    by (simp add: document_xml_def XLF_parse_def rejection_def file_xml_def parse_file_def
        truthy_def)
qed

text \<open>
  The documents of the statement are those \<open>addFile\<close> builds: a new document is
  serializable, and \<open>addFile\<close> with a plain path and plain ids keeps it so, since it
  stores every message and every comment entity-encoded.
\<close>

lemma encodeEntities_append: "encodeEntities (a @ b) = encodeEntities a @ encodeEntities b"
  by (simp add: encodeEntities_def)

lemma encodeEntities_join:
  "join CRLF (map encodeEntities cs) = encodeEntities (join CRLF cs)"
proof (induction cs)
  case Nil
  show ?case by (simp add: encodeEntities_def)
next
  case (Cons c cs)
  have "encodeEntities CRLF = CRLF"
    by (simp add: encodeEntities_def encodeChar_def CRLF_def)
  with Cons show ?case
    by (cases cs) (simp_all add: encodeEntities_append)
qed

lemma stored_encodeEntities: "stored (encodeEntities m)"
  by (simp add: stored_def decode_encode)

lemma stored_comment: "stored (join CRLF (map encodeEntities cs))"
  by (simp add: encodeEntities_join stored_encodeEntities)

lemma addFile_item_serializable:
  "plain k \<Longrightarrow>
   serializable_item \<lparr>item_id = k, item_message = encodeEntities m,
     item_comment =
       (case c of
          None \<Rightarrow> None
        | Some cs \<Rightarrow> if cs \<noteq> [] then Some (join CRLF (map encodeEntities cs)) else None)\<rparr>"
  by (simp add: serializable_item_def stored_encodeEntities stored_comment split: option.splits)

lemma addFile_loop_serializable:
  assumes "addFile_loop keys msgs i rest existingKeys items = Inr items'"
    and "list_all serializable_item items"
    and "list_all (\<lambda>k. plain (key_id k)) rest"
  shows "list_all serializable_item items'"
  using assms
proof (induction keys msgs i rest existingKeys items rule: addFile_loop.induct)
  case (1 keys messages i existingKeys items)
  then show ?case by simp
next
  case (2 keys messages i k rest existingKeys items)
  from "2.prems"(3) have k: "plain k" and r: "list_all (\<lambda>k. plain (key_id k)) rest"
    by (simp_all add: key_id_def)
  show ?case
  proof (cases "KeyString k \<in> set existingKeys")
    case True
    with "2.prems"(1) have "addFile_loop keys messages (Suc i) rest existingKeys items = Inr items'"
      by simp
    from "2.IH"(1) [OF True this "2.prems"(2) r] show ?thesis .
  next
    case False
    with "2.prems"(1) obtain m where
      m: "Option.bind (indexOf keys (KeyString k)) (nth_opt messages) = Some m"
      and l: "addFile_loop keys messages (Suc i) rest (existingKeys @ [KeyString k])
               (items @ [\<lparr>item_id = k, item_message = encodeEntities m, item_comment = None\<rparr>])
              = Inr items'"
      by (auto split: option.splits)
    have "list_all serializable_item
            (items @ [\<lparr>item_id = k, item_message = encodeEntities m, item_comment = None\<rparr>])"
      using "2.prems"(2) addFile_item_serializable [OF k, of m None] by simp
    from "2.IH"(2) [OF False m l this r] show ?thesis .
  qed
next
  case (3 keys messages i k c rest existingKeys items)
  from "3.prems"(3) have k: "plain k" and r: "list_all (\<lambda>k. plain (key_id k)) rest"
    by (simp_all add: key_id_def)
  from "3.prems"(1) obtain m where m: "nth_opt messages i = Some m"
    and l: "addFile_loop keys messages (Suc i) rest (existingKeys @ [LocalizeInfo k c])
             (items @ [\<lparr>item_id = k, item_message = encodeEntities m,
                item_comment =
                  (case c of
                     None \<Rightarrow> None
                   | Some cs \<Rightarrow>
                       if cs \<noteq> [] then Some (join CRLF (map encodeEntities cs)) else None)\<rparr>])
            = Inr items'"
    by (auto split: option.splits)
  have "list_all serializable_item
          (items @ [\<lparr>item_id = k, item_message = encodeEntities m,
             item_comment =
               (case c of
                  None \<Rightarrow> None
                | Some cs \<Rightarrow>
                    if cs \<noteq> [] then Some (join CRLF (map encodeEntities cs)) else None)\<rparr>])"
    using "3.prems"(2) addFile_item_serializable [OF k, of m c] by simp
  from "3.IH" [OF m l this r] show ?case .
qed

lemma list_all_set_property:
  "P (k, v) \<Longrightarrow> list_all P kvs \<Longrightarrow> list_all P (set_property k v kvs)"
  by (induction kvs) auto

lemma new_XLF_serializable: "serializable (new_XLF p)"
  by (simp add: serializable_def new_XLF_def)

lemma addFile_serializable:
  assumes "serializable x" and "plain original" and "list_all (\<lambda>k. plain (key_id k)) keys"
    and "addFile original keys msgs x = Inr x'"
  shows "serializable x'"
proof -
  from assms(4) obtain items where l: "addFile_loop keys msgs 0 keys [] [] = Inr items"
    and x': "x' = x\<lparr>files := set_property original items (files x)\<rparr>"
    by (auto simp: addFile_def split: sum.splits)
  have "list_all serializable_item items"
    using addFile_loop_serializable [OF l _ assms(3)] by simp
  with assms(1,2) show ?thesis
    unfolding x' by (simp add: serializable_def list_all_set_property)
qed

text \<open>
  C3, as the code has it: parsing the text that \<open>toString\<close> returns for a document
  is rejected, for every document whose paths and ids have no double quote, \<open>&\<close> or
  \<open><\<close>. The parser reads the text as the document, each unit with its id and its
  message as \<open>source\<close>; no file node has a \<open>target-language\<close> attribute and no
  unit a \<open>target\<close>, so no message is recovered: a document without files is rejected
  for its missing file nodes, one whose first file has the empty path for the missing
  \<open>original\<close>, every other one when \<open>toLowerCase\<close> is read of the missing
  \<open>target-language\<close>.
\<close>

theorem parse_serialized_rejected:
  assumes "serializable x"
  shows "XLF_parse_string (fst (toString x)) = Some (Rejected (rejection (for_in (files x))))"
proof -
  from assms have b: "buffer x = []"
    and f: "list_all (\<lambda>f. plain (fst f) \<and> list_all serializable_item (snd f)) (for_in (files x))"
    by (simp_all add: serializable_def list_all_iff set_for_in)
  have "parseString (fst (toString x))
        = Some (Result (Some (xliff_of (document_xml (for_in (files x))))))"
    using write_document [OF f] b by (simp add: toString_def parseString_def Let_def)
  then show ?thesis
    by (simp add: XLF_parse_string_def parse_document)
qed

theorem parse_serialized_rejected_witness:
  "XLF_parse_string (fst (toString \<lparr>project = ''p'', buffer = [],
      files = [(''b'', [\<lparr>item_id = ''k'', item_message = ''x &lt; y'',
                          item_comment = Some ''c &amp; d''\<rparr>]),
               (''a'', [])]\<rparr>))
   = Some (Rejected (Thrown TypeError))"
proof -
  have s: "stored ''x &lt; y''" "stored ''c &amp; d''"
    by (simp_all add: stored_def decodeEntities_def encodeEntities_def encodeChar_def)
  have p: "plain ''a''" "plain ''b''" "plain ''k''"
    by (simp_all add: plain_def)
  have "serializable \<lparr>project = ''p'', buffer = [],
      files = [(''b'', [\<lparr>item_id = ''k'', item_message = ''x &lt; y'',
                          item_comment = Some ''c &amp; d''\<rparr>]),
               (''a'', [])]\<rparr>"
    using s p by (simp add: serializable_def serializable_item_def)
  from parse_serialized_rejected [OF this] show ?thesis
    by (simp add: rejection_def for_in_def is_array_index_def is_digit_def)
qed

text \<open>
  C3 as the spec has it fails: for a document with the message \<open><a>&b\<close>, parsing
  the text \<open>toString\<close> returns does not succeed and gives no message back.
\<close>

theorem parse_serialized_counterexample:
  "addFile ''a'' [KeyString ''k''] [''<a>&b''] (new_XLF ''p'')
     = Inr \<lparr>project = ''p'', buffer = [],
            files = [(''a'', [\<lparr>item_id = ''k'', item_message = ''&lt;a&gt;&amp;b'',
                               item_comment = None\<rparr>])]\<rparr>
   \<and> XLF_parse_string (fst (toString \<lparr>project = ''p'', buffer = [],
            files = [(''a'', [\<lparr>item_id = ''k'', item_message = ''&lt;a&gt;&amp;b'',
                               item_comment = None\<rparr>])]\<rparr>))
     = Some (Rejected (Thrown TypeError))"
  by (simp add: addFile_def nth_opt_def new_XLF_def encodeEntities_def encodeChar_def
      toString_def for_in_def is_array_index_def is_digit_def appendHeader_def
      appendFooter_def appendFile_def addStringItem_def Line_def Let_def spaces CRLF_def
      XLF_parse_string_def parseString_def scan element_value_def regex_space_def
      XLF_parse_def parse_file_def truthy_def)

text \<open>
  A translated text is parsed: the language comes back in lower case, a unit without a
  target is skipped, and the target of a unit is what \<open>decodeEntities\<close> makes of the
  text in which the parser has already resolved the entities.
\<close>

lemma parse_translated:
  \<open>XLF_parse_string
     (''<xliff version="1.2">''
      @ ''<file original="a" source-language="en" target-language="DE"><body>''
      @ ''<trans-unit id="k1"><source>s</source><target>&lt;a&gt;&amp;b</target></trans-unit>''
      @ ''<trans-unit id="k2"><source>s</source></trans-unit>''
      @ ''<trans-unit id="k3"><target>&amp;lt;</target></trans-unit>''
      @ ''</body></file></xliff>'')
   = Some (Resolved [\<lparr>messages = [(''k1'', ''<a>&b''), (''k3'', ''<'')],
                      originalFilePath = ''a'', language = ''de''\<rparr>])\<close>
  by (simp add: XLF_parse_string_def parseString_def scan element_value_def regex_space_def
      XLF_parse_def parse_file_def parse_unit_def truthy_def array_toString_def assign_def
      toLowerCase_def lower_char_def decodeEntities_def)

end
